theory Spec2Isabelle
  imports Complex_Main "HOL-Library.List_Lexorder" "HOL-Library.Char_ord" "HOL-Library.Sublist"
begin

section \<open>Data model of the draft manager (src/app.js, class DraftManager)\<close>

text \<open>
  JavaScript numbers are modelled as exact rationals: every value that JSON can carry is a
  rational, NaN and the infinities cannot be loaded from the data files, and the concrete
  inputs used below are small integers on which IEEE arithmetic is exact.
  An optional JSON field is an \<open>option\<close>; a JavaScript object used as a dictionary is a
  partial map; an array is a list. The only exception the modelled code can raise is the
  TypeError of reading a property of \<open>undefined\<close>.
\<close>

datatype error = TypeError

datatype team = Blue | Red

text \<open>An entry of \<open>this.heroes\<close> (heroes.json).\<close>

record hero =
  name :: string
  slug :: string
  new_role :: "string option"

text \<open>
  A statistics block of the catalog (\<open>global\<close>, one map, one side of a matchup): only the two
  fields the scoring code reads.
\<close>

record stat =
  win_rate :: "rat option"
  confidence_adjusted_delta :: "rat option"

record matchup =
  enemy :: "stat option"
  ally :: "stat option"

text \<open>An entry of \<open>this.heroesData\<close>, keyed by hero name.\<close>

record hero_data =
  global :: "stat option"
  maps :: "(string \<rightharpoonup> stat) option"
  matchups :: "(string \<rightharpoonup> matchup) option"

text \<open>An entry of \<open>this.maps\<close>.\<close>

record map_entry =
  map_name :: string
  map_slug :: string

text \<open>Per-hero record of a player inside one game-type bucket.\<close>

record hero_stats =
  games_played :: "nat option"
  hs_win_rate :: "rat option"

type_synonym player_data = "string \<rightharpoonup> (string \<rightharpoonup> hero_stats)"

record player =
  battletag :: string
  pdata :: "player_data option"

record team_draft =
  bans :: "hero option list"
  picks :: "hero option list"
  assignments :: "nat option list"
  manualAssignments :: "bool list"

record manager =
  heroes :: "hero list"
  maps_list :: "map_entry list"
  heroesData :: "string \<rightharpoonup> hero_data"
  selectedMap :: "string option"
  draft :: "team \<Rightarrow> team_draft"
  playerStats :: "team \<Rightarrow> player option list"
  selectedRoles :: "team \<Rightarrow> string set"

text \<open>
  The constructor and \<open>resetDraft\<close> allocate three ban slots and five pick, assignment and
  manual-flag slots per side; every later write is an index assignment inside that range.
\<close>

definition wf_team_draft :: "team_draft \<Rightarrow> bool" where
  "wf_team_draft d \<longleftrightarrow>
     length (bans d) = 3 \<and> length (picks d) = 5 \<and>
     length (assignments d) = 5 \<and> length (manualAssignments d) = 5"

text \<open>JavaScript truthiness of a string-or-null value: null and the empty string are falsy.\<close>

definition truthy_str :: "string option \<Rightarrow> bool" where
  "truthy_str s = (case s of None \<Rightarrow> False | Some t \<Rightarrow> t \<noteq> [])"

text \<open>\<open>p && p.data\<close>: the player slot is occupied and carries fetched data.\<close>

definition valid_player :: "player option \<Rightarrow> bool" where
  "valid_player p = (case p of None \<Rightarrow> False | Some q \<Rightarrow> pdata q \<noteq> None)"

section \<open>Per-player win-rate delta (getPlayerHeroWinRateDelta, app.js 1699-1735)\<close>

definition gameTypes :: "string list" where
  "gameTypes = [''Quick Match'', ''Storm League'']"

text \<open>\<open>Math.max(-5, Math.min(5, delta))\<close>\<close>

definition cap5 :: "rat \<Rightarrow> rat" where
  "cap5 d = max (- 5) (min 5 d)"

text \<open>\<open>x || 50\<close> on an optional number: a missing value and the number 0 are both falsy.\<close>

definition or50 :: "rat option \<Rightarrow> rat" where
  "or50 w = (case w of None \<Rightarrow> 50 | Some v \<Rightarrow> if v = 0 then 50 else v)"

text \<open>\<open>heroStats.games_played || 0\<close>\<close>

definition games_or0 :: "hero_stats \<Rightarrow> nat" where
  "games_or0 hs = (case games_played hs of None \<Rightarrow> 0 | Some g \<Rightarrow> g)"

text \<open>
  One iteration of the loop over the game types; the loop state is the pair
  \<open>(bestDelta, maxGames)\<close>.
\<close>

definition bucket_step :: "player_data \<Rightarrow> string \<Rightarrow> rat \<times> nat \<Rightarrow> string \<Rightarrow> rat \<times> nat" where
  "bucket_step pd heroName acc gameType =
     (case pd gameType of
        None \<Rightarrow> acc
      | Some gameTypeData \<Rightarrow>
          (case gameTypeData heroName of
             None \<Rightarrow> acc
           | Some heroStats \<Rightarrow>
               (let games = games_or0 heroStats in
                if games \<ge> 25 then
                  (let winRate = or50 (hs_win_rate heroStats);
                       delta = cap5 (winRate - 50)
                   in if games > snd acc then (delta, games) else acc)
                else acc)))"

definition getPlayerHeroWinRateDelta :: "player option \<Rightarrow> string \<Rightarrow> rat" where
  "getPlayerHeroWinRateDelta p heroName =
     (case p of
        None \<Rightarrow> 0
      | Some q \<Rightarrow>
          (case pdata q of
             None \<Rightarrow> 0
           | Some pd \<Rightarrow> fst (foldl (bucket_step pd heroName) (0, 0) gameTypes)))"

section \<open>Best delta among the available players (getPlayerWinRateDelta, app.js 1584-1629)\<close>

text \<open>
  \<open>picks[slotIdx] !== null\<close>: a read beyond the end of the array yields \<open>undefined\<close>, which
  is not \<open>null\<close>.
\<close>

definition pick_not_null :: "hero option list \<Rightarrow> nat \<Rightarrow> bool" where
  "pick_not_null pks slotIdx = (if slotIdx < length pks then pks ! slotIdx \<noteq> None else True)"

text \<open>The \<open>forEach\<close> over the assignments that sets the flag \<open>isAssignedToHero\<close>.\<close>

definition isAssignedToHero :: "nat option list \<Rightarrow> hero option list \<Rightarrow> nat \<Rightarrow> bool" where
  "isAssignedToHero asg pks i =
     list_ex (\<lambda>(slotIdx, assignedPlayerIdx). assignedPlayerIdx = Some i \<and> pick_not_null pks slotIdx)
       (enumerate 0 asg)"

text \<open>One iteration of the loop over the player slots; the loop state is \<open>bestDelta\<close>.\<close>

definition player_step ::
  "nat option list \<Rightarrow> hero option list \<Rightarrow> string \<Rightarrow> rat \<Rightarrow> nat \<times> player option \<Rightarrow> rat" where
  "player_step asg pks heroName bestDelta ip =
     (let i = fst ip; pl = snd ip in
      if \<not> valid_player pl then bestDelta
      else if isAssignedToHero asg pks i then bestDelta
      else (let delta = getPlayerHeroWinRateDelta pl heroName
            in if \<bar>delta\<bar> > \<bar>bestDelta\<bar> then delta else bestDelta))"

definition getPlayerWinRateDelta :: "manager \<Rightarrow> string \<Rightarrow> team \<Rightarrow> nat option list \<Rightarrow> rat" where
  "getPlayerWinRateDelta m heroName t asg =
     (let playerData = playerStats m t in
      if playerData = [] then 0
      else foldl (player_step asg (picks (draft m t)) heroName) 0 (enumerate 0 playerData))"

section \<open>Scoring a hero (calculateHeroScore, app.js 1949-2107)\<close>

text \<open>
  The label of an explanation tag. The source builds it with a template string; the
  constructors keep the wording and the value interpolated into it (\<open>Good on ${map}\<close>,
  \<open>Countered by ${enemy}\<close>, \<open>${player} ${winRate.toFixed(1)}% WR\<close>, ...), leaving the decimal
  formatting of the last one aside.
\<close>

datatype tag_text =
    GoodOn string | WeakOn string
  | Counters string | CounteredBy string
  | SynergyWith string | AntiSynergyWith string
  | PlayerWR string rat

text \<open>A pushed tag \<open>{ text, score, winRate, type }\<close>; \<open>label\<close> is the field \<open>text\<close>.\<close>

record tag =
  label :: tag_text
  score :: rat
  winRate :: "rat option"
  tag_type :: string

text \<open>
  The returned object. \<open>breakdown\<close> is a JavaScript object read back with \<open>Object.values\<close>,
  so it is kept as the list of its entries in insertion order; it is empty in the early return
  for a hero without catalog record, which also has no \<open>baseWinRate\<close>.
\<close>

record score_result =
  total :: rat
  breakdown :: "(string \<times> rat) list"
  tags :: "tag list"
  expectedWinRate :: rat
  baseWinRate :: "rat option"

text \<open>\<open>this.draft[team].picks.filter(h => h !== null)\<close>\<close>

definition getPickedHeroes :: "manager \<Rightarrow> team \<Rightarrow> hero list" where
  "getPickedHeroes m t = map the (filter (\<lambda>h. h \<noteq> None) (picks (draft m t)))"

definition enemyTeam :: "team \<Rightarrow> team" where
  "enemyTeam t = (if t = Blue then Red else Blue)"

text \<open>
  \<open>(heroData.global.win_rate || 50)\<close>, written without a guard on \<open>heroData.global\<close> at lines
  1985, 2009 and 2033: reading \<open>win_rate\<close> of an absent \<open>global\<close> block raises a TypeError.
\<close>

definition global_win_rate :: "hero_data \<Rightarrow> error + rat" where
  "global_win_rate heroData = (case global heroData of None \<Rightarrow> Inl TypeError | Some g \<Rightarrow> Inr (or50 (win_rate g)))"

text \<open>Step 1, lines 1970-1972: the guarded read of the global delta.\<close>

definition global_part :: "hero_data \<Rightarrow> rat" where
  "global_part heroData =
     (case global heroData of
        None \<Rightarrow> 0
      | Some g \<Rightarrow> (case confidence_adjusted_delta g of None \<Rightarrow> 0 | Some d \<Rightarrow> d))"

text \<open>Step 2, lines 1975-1997: the map delta and its tag.\<close>

definition map_part :: "manager \<Rightarrow> hero_data \<Rightarrow> error + rat \<times> tag list" where
  "map_part m heroData =
     (if truthy_str (selectedMap m) \<and> maps heroData \<noteq> None then
        (case find (\<lambda>e. Some (map_slug e) = selectedMap m) (maps_list m) of
           None \<Rightarrow> Inr (0, [])
         | Some selectedMapData \<Rightarrow>
             (case the (maps heroData) (map_name selectedMapData) of
                None \<Rightarrow> Inr (0, [])
              | Some mapData \<Rightarrow>
                  (case confidence_adjusted_delta mapData of
                     None \<Rightarrow> Inr (0, [])
                   | Some d \<Rightarrow>
                       if \<bar>d\<bar> \<ge> 3 then
                         (case global_win_rate heroData of
                            Inl e \<Rightarrow> Inl e
                          | Inr w \<Rightarrow>
                              Inr (d, [\<lparr>label = (if d > 0 then GoodOn (map_name selectedMapData)
                                                 else WeakOn (map_name selectedMapData)),
                                        score = d, winRate = Some (w + d), tag_type = ''map''\<rparr>]))
                       else Inr (d, []))))
      else Inr (0, []))"

text \<open>
  Steps 3 and 4, lines 2000-2045, are the same loop over the enemy picks and over the own
  picks; they differ in the side of the matchup that is read (\<open>matchup.enemy\<close> or
  \<open>matchup.ally\<close>) and in the tag that is pushed. The loop state is the running sum together
  with the tags pushed so far.
\<close>

definition enemy_tag :: "string \<Rightarrow> rat \<Rightarrow> rat \<Rightarrow> tag" where
  "enemy_tag nm delta w =
     \<lparr>label = (if delta > 0 then Counters nm else CounteredBy nm), score = delta,
      winRate = Some (w + delta), tag_type = (if delta > 0 then ''counter'' else ''weakness'')\<rparr>"

definition ally_tag :: "string \<Rightarrow> rat \<Rightarrow> rat \<Rightarrow> tag" where
  "ally_tag nm delta w =
     \<lparr>label = (if delta > 0 then SynergyWith nm else AntiSynergyWith nm), score = delta,
      winRate = Some (w + delta), tag_type = (if delta > 0 then ''synergy'' else ''antisynergy'')\<rparr>"

text \<open>\<open>matchup && matchup.side && matchup.side.confidence_adjusted_delta !== undefined\<close>\<close>

definition matchup_delta ::
  "(matchup \<Rightarrow> stat option) \<Rightarrow> (string \<rightharpoonup> matchup) \<Rightarrow> string \<Rightarrow> rat option" where
  "matchup_delta side ms nm =
     (case ms nm of
        None \<Rightarrow> None
      | Some mu \<Rightarrow> (case side mu of None \<Rightarrow> None | Some s \<Rightarrow> confidence_adjusted_delta s))"

fun matchup_loop ::
  "(matchup \<Rightarrow> stat option) \<Rightarrow> (string \<Rightarrow> rat \<Rightarrow> rat \<Rightarrow> tag) \<Rightarrow> hero_data \<Rightarrow>
   (string \<rightharpoonup> matchup) \<Rightarrow> hero list \<Rightarrow> rat \<times> tag list \<Rightarrow> error + rat \<times> tag list" where
  "matchup_loop side mk heroData ms [] acc = Inr acc"
| "matchup_loop side mk heroData ms (h # hs) acc =
     (case matchup_delta side ms (name h) of
        None \<Rightarrow> matchup_loop side mk heroData ms hs acc
      | Some delta \<Rightarrow>
          if \<bar>delta\<bar> \<ge> 3 then
            (case global_win_rate heroData of
               Inl e \<Rightarrow> Inl e
             | Inr w \<Rightarrow>
                 matchup_loop side mk heroData ms hs (fst acc + delta, snd acc @ [mk (name h) delta w]))
          else matchup_loop side mk heroData ms hs (fst acc + delta, snd acc))"

text \<open>\<open>if (picks.length > 0 && heroData.matchups) { picks.forEach(...) }\<close>\<close>

definition matchup_part ::
  "(matchup \<Rightarrow> stat option) \<Rightarrow> (string \<Rightarrow> rat \<Rightarrow> rat \<Rightarrow> tag) \<Rightarrow> hero_data \<Rightarrow> hero list \<Rightarrow>
   error + rat \<times> tag list" where
  "matchup_part side mk heroData pks =
     (if pks \<noteq> [] \<and> matchups heroData \<noteq> None
      then matchup_loop side mk heroData (the (matchups heroData)) pks (0, [])
      else Inr (0, []))"

text \<open>
  Lines 2055-2083: the search for the player named in the player tag. The loop state is
  \<open>(bestPlayer, bestWinRate)\<close>; \<open>battletag.split('#')[0]\<close> is the prefix before the first
  \<open>#\<close>.
\<close>

definition tag_bucket_step ::
  "player \<Rightarrow> player_data \<Rightarrow> string \<Rightarrow> string option \<times> rat \<Rightarrow> string \<Rightarrow> string option \<times> rat" where
  "tag_bucket_step pl pd heroName acc gameType =
     (case pd gameType of
        None \<Rightarrow> acc
      | Some gameTypeData \<Rightarrow>
          (case gameTypeData heroName of
             None \<Rightarrow> acc
           | Some heroStats \<Rightarrow>
               if games_or0 heroStats \<ge> 25 then
                 (let winRate = or50 (hs_win_rate heroStats)
                  in if \<bar>winRate - 50\<bar> > \<bar>snd acc - 50\<bar>
                     then (Some (takeWhile (\<lambda>c. c \<noteq> CHR ''#'') (battletag pl)), winRate)
                     else acc)
               else acc))"

definition tag_player_step ::
  "nat option list \<Rightarrow> hero option list \<Rightarrow> string \<Rightarrow> string option \<times> rat \<Rightarrow>
   nat \<times> player option \<Rightarrow> string option \<times> rat" where
  "tag_player_step asg pks heroName acc ip =
     (case snd ip of
        None \<Rightarrow> acc
      | Some pl \<Rightarrow>
          (case pdata pl of
             None \<Rightarrow> acc
           | Some pd \<Rightarrow>
               if isAssignedToHero asg pks (fst ip) then acc
               else foldl (tag_bucket_step pl pd heroName) acc gameTypes))"

definition find_best_player :: "manager \<Rightarrow> string \<Rightarrow> team \<Rightarrow> string option \<times> rat" where
  "find_best_player m heroName t =
     foldl (tag_player_step (assignments (draft m t)) (picks (draft m t)) heroName)
       (None, 50) (enumerate 0 (playerStats m t))"

text \<open>Step 5, lines 2048-2093: the player delta and its tag.\<close>

definition player_part :: "manager \<Rightarrow> string \<Rightarrow> team \<Rightarrow> rat \<times> tag list" where
  "player_part m heroName t =
     (let playerDelta = getPlayerWinRateDelta m heroName t (assignments (draft m t)) in
      if playerDelta \<noteq> 0 then
        (if \<bar>playerDelta\<bar> \<ge> 1 then
           (case find_best_player m heroName t of
              (bestPlayer, bestWinRate) \<Rightarrow>
                if truthy_str bestPlayer
                then (playerDelta,
                      [\<lparr>label = PlayerWR (the bestPlayer) bestWinRate, score = playerDelta,
                        winRate = None, tag_type = ''player''\<rparr>])
                else (playerDelta, []))
         else (playerDelta, []))
      else (0, []))"

definition calculateHeroScore :: "manager \<Rightarrow> string \<Rightarrow> team \<Rightarrow> error + score_result" where
  "calculateHeroScore m heroName t =
     (case heroesData m heroName of
        None \<Rightarrow> Inr \<lparr>total = 0, breakdown = [], tags = [], expectedWinRate = 50, baseWinRate = None\<rparr>
      | Some heroData \<Rightarrow>
          (let ownPicks = getPickedHeroes m t;
               enemyPicks = getPickedHeroes m (enemyTeam t)
           in case map_part m heroData of
                Inl e \<Rightarrow> Inl e
              | Inr (mapD, mapTags) \<Rightarrow>
                 (case matchup_part enemy enemy_tag heroData enemyPicks of
                    Inl e \<Rightarrow> Inl e
                  | Inr (vsEnemy, enemyTags) \<Rightarrow>
                     (case matchup_part ally ally_tag heroData ownPicks of
                        Inl e \<Rightarrow> Inl e
                      | Inr (withAllies, allyTags) \<Rightarrow>
                         (case player_part m heroName t of
                            (playerDelta, playerTags) \<Rightarrow>
                              (let bd = [(''global'', global_part heroData), (''map'', mapD),
                                         (''vsEnemy'', vsEnemy), (''withAllies'', withAllies),
                                         (''playerDelta'', playerDelta)];
                                   totalDelta = foldl (+) 0 (map snd bd)
                               in Inr \<lparr>total = totalDelta, breakdown = bd,
                                       tags = mapTags @ enemyTags @ allyTags @ playerTags,
                                       expectedWinRate = 50 + totalDelta,
                                       baseWinRate = Some (case global heroData of
                                                             None \<Rightarrow> 50
                                                           | Some g \<Rightarrow> or50 (win_rate g))\<rparr>))))))"

text \<open>Reading a component of the breakdown object; an absent key reads as \<open>undefined\<close>.\<close>

definition component :: "'a score_result_scheme \<Rightarrow> string \<Rightarrow> rat option" where
  "component r k = map_of (breakdown r) k"

section \<open>Ranking the candidates (getRecommendations, app.js 2114-2161)\<close>

text \<open>\<open>{ hero, ...score }\<close>\<close>

record recommendation = score_result +
  rec_hero :: hero

definition with_hero :: "hero \<Rightarrow> score_result \<Rightarrow> recommendation" where
  "with_hero h r =
     \<lparr>total = total r, breakdown = breakdown r, tags = tags r,
      expectedWinRate = expectedWinRate r, baseWinRate = baseWinRate r, rec_hero = h\<rparr>"

text \<open>
  Lines 2126-2134: the set of slugs collected from the ban and pick slots of both sides;
  \<open>if (hero) unavailableHeroes.add(hero.slug)\<close> skips the empty slots.
\<close>

definition slot_slugs :: "hero option list \<Rightarrow> string list" where
  "slot_slugs slots = map (\<lambda>h. slug (the h)) (filter (\<lambda>h. h \<noteq> None) slots)"

definition unavailableHeroes :: "manager \<Rightarrow> string set" where
  "unavailableHeroes m =
     set (concat (map (\<lambda>t. slot_slugs (bans (draft m t)) @ slot_slugs (picks (draft m t)))
                      [Blue, Red]))"

text \<open>\<open>Object.values(score.breakdown).some(val => val !== 0)\<close>\<close>

definition hasScore :: "'a score_result_scheme \<Rightarrow> bool" where
  "hasScore r = list_ex (\<lambda>v. v \<noteq> 0) (map snd (breakdown r))"

text \<open>
  The \<open>forEach\<close> over \<open>this.heroes\<close> that fills \<open>recommendations\<close>; an exception raised by
  \<open>calculateHeroScore\<close> leaves the loop and the function.
\<close>

fun collect :: "manager \<Rightarrow> team \<Rightarrow> hero list \<Rightarrow> recommendation list \<Rightarrow> error + recommendation list" where
  "collect m t [] recs = Inr recs"
| "collect m t (h # hs) recs =
     (if slug h \<notin> unavailableHeroes m then
        (if selectedRoles m t \<noteq> {} \<and> truthy_str (new_role h) \<and> the (new_role h) \<notin> selectedRoles m t
         then collect m t hs recs
         else (case calculateHeroScore m (name h) t of
                 Inl e \<Rightarrow> Inl e
               | Inr sc \<Rightarrow>
                   if hasScore sc then collect m t hs (recs @ [with_hero h sc])
                   else collect m t hs recs))
      else collect m t hs recs)"

text \<open>
  \<open>recommendations.sort((a, b) => b.expectedWinRate - a.expectedWinRate)\<close>: the built-in
  sort is stable (ECMAScript 2019), as is \<open>sort_key\<close>; the comparator orders by decreasing
  expected win rate.
\<close>

definition getRecommendations :: "manager \<Rightarrow> team \<Rightarrow> error + recommendation list" where
  "getRecommendations m t =
     (let hasMap = truthy_str (selectedMap m);
          hasOwnPicks = getPickedHeroes m t \<noteq> [];
          hasEnemyPicks = getPickedHeroes m (enemyTeam t) \<noteq> []
      in if \<not> hasMap \<and> \<not> hasOwnPicks \<and> \<not> hasEnemyPicks then Inr []
         else (case collect m t (heroes m) [] of
                 Inl e \<Rightarrow> Inl e
               | Inr recs \<Rightarrow> Inr (sort_key (\<lambda>r. - expectedWinRate r) recs)))"

section \<open>Assigning picked heroes to players (app.js 1814-1940)\<close>

text \<open>
  Reads of the five-slot arrays. A slot index beyond the end reads \<open>undefined\<close>, which is
  falsy and is not \<open>null\<close>; on a well-formed draft (\<open>wf_team_draft\<close>) every read below is in
  range.
\<close>

definition pick_at :: "hero option list \<Rightarrow> nat \<Rightarrow> hero option" where
  "pick_at pks i = (if i < length pks then pks ! i else None)"

definition manual_at :: "bool list \<Rightarrow> nat \<Rightarrow> bool" where
  "manual_at man i = (i < length man \<and> man ! i)"

definition asg_at :: "nat option list \<Rightarrow> nat \<Rightarrow> nat option" where
  "asg_at a i = (if i < length a then a ! i else None)"

text \<open>\<open>assignments[slotIndex] === null\<close>\<close>

definition is_null_at :: "nat option list \<Rightarrow> nat \<Rightarrow> bool" where
  "is_null_at a i = (i < length a \<and> a ! i = None)"

text \<open>\<open>players.filter(p => p && p.data)\<close>\<close>

definition validPlayers :: "manager \<Rightarrow> team \<Rightarrow> player option list" where
  "validPlayers m t = filter valid_player (playerStats m t)"

text \<open>\<open>assignments.some((assignedIdx) => assignedIdx === playerIndex)\<close>\<close>

definition alreadyAssigned :: "nat option list \<Rightarrow> nat \<Rightarrow> bool" where
  "alreadyAssigned a playerIndex = list_ex (\<lambda>assignedIdx. assignedIdx = Some playerIndex) a"

text \<open>
  \<open>validPlayers.findIndex((_, idx) => !assignments.some(...))\<close>; the result \<open>-1\<close> is
  \<open>None\<close>.
\<close>

definition firstAvailable :: "nat option list \<Rightarrow> nat \<Rightarrow> nat option" where
  "firstAvailable a n = find (\<lambda>idx. \<not> alreadyAssigned a idx) [0..<n]"

text \<open>First pass, lines 1880-1884: keep the manual assignment of a slot that holds a pick.\<close>

definition pass1_step ::
  "hero option list \<Rightarrow> nat option list \<Rightarrow> bool list \<Rightarrow> nat option list \<Rightarrow> nat \<Rightarrow> nat option list" where
  "pass1_step pks cur man a slotIndex =
     (if manual_at man slotIndex \<and> pick_at pks slotIndex \<noteq> None
      then a[slotIndex := asg_at cur slotIndex]
      else a)"

text \<open>
  Second pass, lines 1887-1920. The inner \<open>forEach\<close> over the valid players carries
  \<open>(bestPlayerIndex, bestDelta)\<close>, started at \<open>(-1, -999)\<close>; the index \<open>-1\<close> is \<open>None\<close>.
  Index and delta are set together, so the index is a player's once \<open>bestDelta\<close> exceeds
  \<open>-999\<close> (lemma \<open>best_loop_fresh\<close>).
\<close>

definition best_step ::
  "nat option list \<Rightarrow> string \<Rightarrow> nat option \<times> rat \<Rightarrow> nat \<times> player option \<Rightarrow> nat option \<times> rat" where
  "best_step a heroName acc ip =
     (if alreadyAssigned a (fst ip) then acc
      else (let delta = getPlayerHeroWinRateDelta (snd ip) heroName
            in if delta > snd acc then (Some (fst ip), delta) else acc))"

definition pass2_step ::
  "player option list \<Rightarrow> nat option list \<Rightarrow> nat \<times> hero option \<Rightarrow> nat option list" where
  "pass2_step vps a sh =
     (case snd sh of
        None \<Rightarrow> a
      | Some h \<Rightarrow>
          if is_null_at a (fst sh) then
            (case foldl (best_step a (name h)) (None, - 999) (enumerate 0 vps) of
               (bestPlayerIndex, bestDelta) \<Rightarrow>
                 if bestDelta > - 999 then a[fst sh := bestPlayerIndex]
                 else (case firstAvailable a (length vps) of
                         None \<Rightarrow> a
                       | Some availablePlayerIndex \<Rightarrow> a[fst sh := Some availablePlayerIndex]))
          else a)"

text \<open>Third pass, lines 1923-1936: fill the remaining slots, with the sequential fallback.\<close>

definition pass3_step :: "nat \<Rightarrow> nat option list \<Rightarrow> nat \<Rightarrow> nat option list" where
  "pass3_step n a slotIndex =
     (if is_null_at a slotIndex \<and> slotIndex < n then
        (case firstAvailable a n of
           Some availablePlayerIndex \<Rightarrow> a[slotIndex := Some availablePlayerIndex]
         | None \<Rightarrow> a[slotIndex := Some slotIndex])
      else a)"

text \<open>The three passes on a fresh array of five nulls.\<close>

definition resolve ::
  "player option list \<Rightarrow> hero option list \<Rightarrow> nat option list \<Rightarrow> bool list \<Rightarrow> nat option list" where
  "resolve vps pks cur man =
     (let a1 = foldl (pass1_step pks cur man) (replicate 5 None) [0..<5];
          a2 = foldl (pass2_step vps) a1 (enumerate 0 pks);
          a3 = foldl (pass3_step (length vps)) a2 [0..<5]
      in a3)"

definition assignHeroesToPlayers :: "manager \<Rightarrow> team \<Rightarrow> manager" where
  "assignHeroesToPlayers m t =
     (let d = draft m t; vps = validPlayers m t in
      if vps = [] then
        m\<lparr>draft := (draft m)(t := d\<lparr>assignments := replicate 5 None,
                                    manualAssignments := replicate 5 False\<rparr>)\<rparr>
      else
        m\<lparr>draft := (draft m)(t := d\<lparr>assignments :=
                 resolve vps (picks d) (assignments d) (manualAssignments d)\<rparr>)\<rparr>)"

text \<open>
  fillEmptySlots, lines 1814-1854, works on the stored array in place and indexes the
  unfiltered player list.
\<close>

definition assignedElsewhere :: "nat option list \<Rightarrow> nat \<Rightarrow> nat \<Rightarrow> bool" where
  "assignedElsewhere a slotIndex playerIdx =
     list_ex (\<lambda>(idx, assignedIdx). idx \<noteq> slotIndex \<and> assignedIdx = Some playerIdx) (enumerate 0 a)"

definition fill_step :: "player option list \<Rightarrow> nat option list \<Rightarrow> nat \<Rightarrow> nat option list" where
  "fill_step players a slotIndex =
     (if is_null_at a slotIndex \<and> slotIndex < length players then
        (case find (\<lambda>playerIdx. valid_player (players ! playerIdx)
                                \<and> \<not> assignedElsewhere a slotIndex playerIdx)
                [0..<length players] of
           Some foundPlayerIndex \<Rightarrow> a[slotIndex := Some foundPlayerIndex]
         | None \<Rightarrow> a[slotIndex := (if slotIndex < length players then Some slotIndex else None)])
      else a)"

definition fillEmptySlots :: "manager \<Rightarrow> team \<Rightarrow> manager" where
  "fillEmptySlots m t =
     (let players = playerStats m t; d = draft m t in
      if validPlayers m t = [] then m
      else m\<lparr>draft := (draft m)(t := d\<lparr>assignments :=
                 foldl (fill_step players) (assignments d) [0..<5]\<rparr>)\<rparr>)"

text \<open>No two slots reference the same player.\<close>

definition no_shared_player :: "nat option list \<Rightarrow> bool" where
  "no_shared_player a = distinct (map the (filter (\<lambda>x. x \<noteq> None) a))"

text \<open>
  The order the specification asks of the ranked list: decreasing expected win rate, ties
  broken by hero id (\<open>ident\<close> reads the id off a hero).
\<close>

definition ordered_by_rate_then_id :: "(hero \<Rightarrow> string) \<Rightarrow> recommendation list \<Rightarrow> bool" where
  "ordered_by_rate_then_id ident recs =
     sorted_wrt (\<lambda>a b. expectedWinRate a > expectedWinRate b
                      \<or> (expectedWinRate a = expectedWinRate b \<and> ident (rec_hero a) \<le> ident (rec_hero b)))
       recs"

section \<open>Auxiliary notions used in the statements\<close>

text \<open>
  The players that the loop of \<open>getPlayerWinRateDelta\<close> does not skip: the slot holds a
  profile with data, and no assignment slot with a picked hero references its index.
\<close>

definition available_players ::
  "nat option list \<Rightarrow> hero option list \<Rightarrow> player option list \<Rightarrow> player option list" where
  "available_players asg pks players =
     map snd (filter (\<lambda>ip. valid_player (snd ip) \<and> \<not> isAssignedToHero asg pks (fst ip))
                (enumerate 0 players))"

text \<open>\<open>if (Math.abs(delta) > Math.abs(bestDelta)) bestDelta = delta\<close>\<close>

definition keep_larger :: "rat \<Rightarrow> rat \<Rightarrow> rat" where
  "keep_larger b d = (if \<bar>d\<bar> > \<bar>b\<bar> then d else b)"

text \<open>The recorded delta of one side of a matchup, 0 for an unrecorded pair.\<close>

definition side_delta :: "(matchup \<Rightarrow> stat option) \<Rightarrow> hero_data \<Rightarrow> string \<Rightarrow> rat" where
  "side_delta side heroData nm =
     (case matchups heroData of
        None \<Rightarrow> 0
      | Some ms \<Rightarrow> (case matchup_delta side ms nm of None \<Rightarrow> 0 | Some d \<Rightarrow> d))"

text \<open>
  What the collecting loop guarantees of each entry it pushes: the hero's slug is not
  unavailable, its score was returned by \<open>calculateHeroScore\<close> and has a non-zero component.
\<close>

definition from_score :: "manager \<Rightarrow> team \<Rightarrow> recommendation \<Rightarrow> bool" where
  "from_score m t r \<longleftrightarrow>
     slug (rec_hero r) \<notin> unavailableHeroes m \<and> hasScore r \<and>
     (\<exists>sc. calculateHeroScore m (name (rec_hero r)) t = Inr sc \<and> r = with_hero (rec_hero r) sc)"

text \<open>
  The record, the game count and the capped delta that \<open>getPlayerHeroWinRateDelta\<close> reads for
  one hero in one game-type bucket.
\<close>

definition bucket_stats :: "player_data \<Rightarrow> string \<Rightarrow> string \<Rightarrow> hero_stats option" where
  "bucket_stats pd gameType heroName =
     (case pd gameType of None \<Rightarrow> None | Some gameTypeData \<Rightarrow> gameTypeData heroName)"

definition bucket_games :: "player_data \<Rightarrow> string \<Rightarrow> string \<Rightarrow> nat" where
  "bucket_games pd gameType heroName =
     (case bucket_stats pd gameType heroName of None \<Rightarrow> 0 | Some hs \<Rightarrow> games_or0 hs)"

definition bucket_delta :: "player_data \<Rightarrow> string \<Rightarrow> string \<Rightarrow> rat" where
  "bucket_delta pd gameType heroName =
     (case bucket_stats pd gameType heroName of
        None \<Rightarrow> 0
      | Some hs \<Rightarrow> cap5 (or50 (hs_win_rate hs) - 50))"

text \<open>
  \<open>battletag.split('#')[0]\<close>, the display name of a player, and the condition that every
  player of a side has a non-empty one.
\<close>

definition display_name :: "player \<Rightarrow> string" where
  "display_name pl = takeWhile (\<lambda>c. c \<noteq> CHR ''#'') (battletag pl)"

definition named_players :: "player option list \<Rightarrow> bool" where
  "named_players players \<longleftrightarrow>
     list_all (\<lambda>p. case p of None \<Rightarrow> True | Some pl \<Rightarrow> display_name pl \<noteq> []) players"

text \<open>
  A name and a win rate are those of a player of the side who has at least 25 games on the
  hero in one of the buckets.
\<close>

definition label_source :: "player option list \<Rightarrow> string \<Rightarrow> string \<Rightarrow> rat \<Rightarrow> bool" where
  "label_source players heroName nm w \<longleftrightarrow>
     (\<exists>pl pd gameType gameTypeData heroStats.
        Some pl \<in> set players \<and> pdata pl = Some pd \<and> gameType \<in> set gameTypes \<and>
        pd gameType = Some gameTypeData \<and> gameTypeData heroName = Some heroStats \<and>
        games_or0 heroStats \<ge> 25 \<and>
        nm = display_name pl \<and> w = or50 (hs_win_rate heroStats))"

text \<open>The values of the \<open>type\<close> field that a pushed tag can carry.\<close>

definition tag_kinds :: "string set" where
  "tag_kinds = {''map'', ''counter'', ''weakness'', ''synergy'', ''antisynergy'', ''player''}"

text \<open>The array after the first pass of \<open>assignHeroesToPlayers\<close>.\<close>

definition pass1 :: "hero option list \<Rightarrow> nat option list \<Rightarrow> bool list \<Rightarrow> nat option list" where
  "pass1 pks cur man = foldl (pass1_step pks cur man) (replicate 5 None) [0..<5]"

text \<open>
  The manual assignments that the first pass keeps (manual flag set, pick present) reference
  pairwise different players.
\<close>

definition kept_manual_distinct :: "team_draft \<Rightarrow> bool" where
  "kept_manual_distinct d \<longleftrightarrow>
     no_shared_player (pass1 (picks d) (assignments d) (manualAssignments d))"

text \<open>Every slot with a manual flag and a pick has a player assigned.\<close>

definition manual_picks_assigned :: "team_draft \<Rightarrow> bool" where
  "manual_picks_assigned d \<longleftrightarrow>
     list_all (\<lambda>(man, pk, asg). man \<and> pk \<noteq> None \<longrightarrow> asg \<noteq> None)
       (zip (manualAssignments d) (zip (picks d) (assignments d)))"

text \<open>Every pick sits in a slot whose index is below \<open>n\<close>.\<close>

definition picks_within :: "nat \<Rightarrow> team_draft \<Rightarrow> bool" where
  "picks_within n d \<longleftrightarrow> list_all (\<lambda>(i, pk). pk \<noteq> None \<longrightarrow> i < n) (enumerate 0 (picks d))"

text \<open>
  Two different slots reference the same player only if that player's index is the number of
  one of the two slots, which is what the sequential fallback of the third pass writes.
\<close>

definition shared_by_fallback_only :: "nat option list \<Rightarrow> bool" where
  "shared_by_fallback_only a \<longleftrightarrow>
     (\<forall>i \<in> {0..<length a}. \<forall>j \<in> {0..<length a}.
        i \<noteq> j \<and> a ! i \<noteq> None \<and> a ! i = a ! j \<longrightarrow> a ! i = Some i \<or> a ! i = Some j)"

text \<open>
  Invariant of the passes when every pick sits below the number \<open>n\<close> of valid players: no
  player is shared and only slots below \<open>n\<close> are filled.
\<close>

definition placed_below :: "nat \<Rightarrow> nat option list \<Rightarrow> bool" where
  "placed_below n a \<longleftrightarrow> length a = 5 \<and> no_shared_player a \<and> (\<forall>i < 5. a ! i \<noteq> None \<longrightarrow> i < n)"

section \<open>Concrete drafts\<close>

text \<open>The state built by the constructor, before any data is loaded.\<close>

definition initial_draft :: team_draft where
  "initial_draft = \<lparr>bans = [None, None, None], picks = [None, None, None, None, None],
     assignments = [None, None, None, None, None],
     manualAssignments = [False, False, False, False, False]\<rparr>"

definition initial_manager :: manager where
  "initial_manager = \<lparr>heroes = [], maps_list = [], heroesData = Map.empty, selectedMap = None,
     draft = (\<lambda>_. initial_draft), playerStats = (\<lambda>_. []), selectedRoles = (\<lambda>_. {})\<rparr>"

text \<open>Shorthands for catalog and profile entries.\<close>

definition mk_hero :: "string \<Rightarrow> string \<Rightarrow> hero" where
  "mk_hero n s = \<lparr>name = n, slug = s, new_role = None\<rparr>"

definition delta_only :: "rat \<Rightarrow> stat" where
  "delta_only d = \<lparr>win_rate = None, confidence_adjusted_delta = Some d\<rparr>"

definition mk_stats :: "nat \<Rightarrow> rat \<Rightarrow> hero_stats" where
  "mk_stats g w = \<lparr>games_played = Some g, hs_win_rate = Some w\<rparr>"

text \<open>Two fetched player profiles.\<close>

definition ana :: player where
  "ana = \<lparr>battletag = ''ana#1234'',
           pdata = Some [''Quick Match'' \<mapsto> [''Muradin'' \<mapsto> mk_stats 30 60,
                                               ''Zeratul'' \<mapsto> mk_stats 40 45]]\<rparr>"

definition bob :: player where
  "bob = \<lparr>battletag = ''bob#77'',
           pdata = Some [''Quick Match'' \<mapsto> [''Zeratul'' \<mapsto> mk_stats 20 70],
                         ''Storm League'' \<mapsto> [''Zeratul'' \<mapsto> mk_stats 26 53,
                                                 ''Li-Ming'' \<mapsto> mk_stats 30 60]]\<rparr>"

text \<open>The catalog entry of Zeratul in the sample draft.\<close>

definition zeratul_data :: hero_data where
  "zeratul_data =
     \<lparr>global = Some \<lparr>win_rate = Some 52, confidence_adjusted_delta = Some 2\<rparr>,
      maps = Some [''Cursed Hollow'' \<mapsto> delta_only 4],
      matchups = Some [''Valla'' \<mapsto> \<lparr>enemy = Some (delta_only 3), ally = None\<rparr>,
                       ''Muradin'' \<mapsto> \<lparr>enemy = None, ally = Some (delta_only (- 3))\<rparr>]\<rparr>"

text \<open>
  A draft on Cursed Hollow: Blue has picked Muradin (played by the first player), Red has
  picked Valla; the second Blue player slot is empty and the third holds a profile.
\<close>

definition demo_manager :: manager where
  "demo_manager = initial_manager\<lparr>
      heroes := [mk_hero ''Zeratul'' ''zeratul'', mk_hero ''Abathur'' ''abathur'',
                 mk_hero ''Muradin'' ''muradin'', mk_hero ''Valla'' ''valla'',
                 mk_hero ''Li-Ming'' ''liming'', mk_hero ''Jaina'' ''jaina'',
                 mk_hero ''Tracer'' ''tracer''],
      maps_list := [\<lparr>map_name = ''Cursed Hollow'', map_slug = ''cursedhollow''\<rparr>],
      heroesData := [
        ''Zeratul'' \<mapsto> zeratul_data,
        ''Abathur'' \<mapsto> \<lparr>global = Some \<lparr>win_rate = Some 49, confidence_adjusted_delta = Some 2\<rparr>,
                        maps = Some [''Cursed Hollow'' \<mapsto> delta_only 4],
                        matchups = None\<rparr>,
        ''Jaina'' \<mapsto> \<lparr>global = Some \<lparr>win_rate = Some 54, confidence_adjusted_delta = Some 4\<rparr>,
                      maps = None, matchups = None\<rparr>,
        ''Tracer'' \<mapsto> \<lparr>global = Some \<lparr>win_rate = Some 50, confidence_adjusted_delta = Some 0\<rparr>,
                       maps = None, matchups = None\<rparr>,
        ''Muradin'' \<mapsto> \<lparr>global = Some \<lparr>win_rate = Some 51, confidence_adjusted_delta = Some 1\<rparr>,
                        maps = None, matchups = None\<rparr>],
      selectedMap := Some ''cursedhollow'',
      draft := (\<lambda>_. initial_draft)
         (Blue := initial_draft\<lparr>picks := [Some (mk_hero ''Muradin'' ''muradin''), None, None, None, None],
                                 assignments := [Some 0, None, Some 2, None, None]\<rparr>,
          Red := initial_draft\<lparr>picks := [Some (mk_hero ''Valla'' ''valla''), None, None, None, None]\<rparr>),
      playerStats := (\<lambda>_. [])(Blue := [Some ana, None, Some bob])\<rparr>"

definition demo_blue_recs :: "recommendation list" where
  "demo_blue_recs =
     [\<lparr>total = 9,
       breakdown = [(''global'', 2), (''map'', 4), (''vsEnemy'', 3), (''withAllies'', - 3),
                    (''playerDelta'', 3)],
       tags = [\<lparr>label = GoodOn ''Cursed Hollow'', score = 4, winRate = Some 56, tag_type = ''map''\<rparr>,
               \<lparr>label = Counters ''Valla'', score = 3, winRate = Some 55, tag_type = ''counter''\<rparr>,
               \<lparr>label = AntiSynergyWith ''Muradin'', score = - 3, winRate = Some 49,
                tag_type = ''antisynergy''\<rparr>,
               \<lparr>label = PlayerWR ''bob'' 53, score = 3, winRate = None, tag_type = ''player''\<rparr>],
       expectedWinRate = 59, baseWinRate = Some 52, rec_hero = mk_hero ''Zeratul'' ''zeratul''\<rparr>,
      \<lparr>total = 6,
       breakdown = [(''global'', 2), (''map'', 4), (''vsEnemy'', 0), (''withAllies'', 0),
                    (''playerDelta'', 0)],
       tags = [\<lparr>label = GoodOn ''Cursed Hollow'', score = 4, winRate = Some 53, tag_type = ''map''\<rparr>],
       expectedWinRate = 56, baseWinRate = Some 49, rec_hero = mk_hero ''Abathur'' ''abathur''\<rparr>,
      \<lparr>total = 4,
       breakdown = [(''global'', 4), (''map'', 0), (''vsEnemy'', 0), (''withAllies'', 0),
                    (''playerDelta'', 0)],
       tags = [], expectedWinRate = 54, baseWinRate = Some 54,
       rec_hero = mk_hero ''Jaina'' ''jaina''\<rparr>]"

definition demo_red_recs :: "recommendation list" where
  "demo_red_recs =
     [\<lparr>total = 6,
       breakdown = [(''global'', 2), (''map'', 4), (''vsEnemy'', 0), (''withAllies'', 0),
                    (''playerDelta'', 0)],
       tags = [\<lparr>label = GoodOn ''Cursed Hollow'', score = 4, winRate = Some 56, tag_type = ''map''\<rparr>],
       expectedWinRate = 56, baseWinRate = Some 52, rec_hero = mk_hero ''Zeratul'' ''zeratul''\<rparr>,
      \<lparr>total = 6,
       breakdown = [(''global'', 2), (''map'', 4), (''vsEnemy'', 0), (''withAllies'', 0),
                    (''playerDelta'', 0)],
       tags = [\<lparr>label = GoodOn ''Cursed Hollow'', score = 4, winRate = Some 53, tag_type = ''map''\<rparr>],
       expectedWinRate = 56, baseWinRate = Some 49, rec_hero = mk_hero ''Abathur'' ''abathur''\<rparr>,
      \<lparr>total = 4,
       breakdown = [(''global'', 4), (''map'', 0), (''vsEnemy'', 0), (''withAllies'', 0),
                    (''playerDelta'', 0)],
       tags = [], expectedWinRate = 54, baseWinRate = Some 54,
       rec_hero = mk_hero ''Jaina'' ''jaina''\<rparr>]"

text \<open>
  A catalog entry with map data but no \<open>global\<close> block, on the selected map.
\<close>

definition no_global_manager :: manager where
  "no_global_manager = initial_manager\<lparr>
      heroes := [mk_hero ''Abathur'' ''abathur''],
      maps_list := [\<lparr>map_name = ''Cursed Hollow'', map_slug = ''cursedhollow''\<rparr>],
      heroesData := [''Abathur'' \<mapsto> \<lparr>global = None,
                                      maps = Some [''Cursed Hollow'' \<mapsto> delta_only 4],
                                      matchups = None\<rparr>],
      selectedMap := Some ''cursedhollow''\<rparr>"

text \<open>A profile with thirty recorded games on Abathur, all of them lost.\<close>

definition winless_player :: "player option" where
  "winless_player =
     Some \<lparr>battletag = ''cho#5'', pdata = Some [''Quick Match'' \<mapsto> [''Abathur'' \<mapsto> mk_stats 30 0]]\<rparr>"

text \<open>The score of Zeratul for Blue in the sample draft.\<close>

definition demo_zeratul_score :: score_result where
  "demo_zeratul_score =
     \<lparr>total = 9,
      breakdown = [(''global'', 2), (''map'', 4), (''vsEnemy'', 3), (''withAllies'', - 3),
                   (''playerDelta'', 3)],
      tags = [\<lparr>label = GoodOn ''Cursed Hollow'', score = 4, winRate = Some 56, tag_type = ''map''\<rparr>,
              \<lparr>label = Counters ''Valla'', score = 3, winRate = Some 55, tag_type = ''counter''\<rparr>,
              \<lparr>label = AntiSynergyWith ''Muradin'', score = - 3, winRate = Some 49,
               tag_type = ''antisynergy''\<rparr>,
              \<lparr>label = PlayerWR ''bob'' 53, score = 3, winRate = None, tag_type = ''player''\<rparr>],
      expectedWinRate = 59, baseWinRate = Some 52\<rparr>"

text \<open>
  A catalog in which Muradin carries an as-ally matchup record under its own name, with
  Muradin picked by Blue.
\<close>

definition self_matchup_manager :: manager where
  "self_matchup_manager = initial_manager\<lparr>
      heroes := [mk_hero ''Muradin'' ''muradin''],
      heroesData := [''Muradin'' \<mapsto>
         \<lparr>global = Some \<lparr>win_rate = Some 51, confidence_adjusted_delta = Some 1\<rparr>,
          maps = None,
          matchups = Some [''Muradin'' \<mapsto> \<lparr>enemy = None, ally = Some (delta_only 2)\<rparr>]\<rparr>],
      draft := (\<lambda>_. initial_draft)
         (Blue := initial_draft\<lparr>picks := [Some (mk_hero ''Muradin'' ''muradin''), None, None, None, None]\<rparr>)\<rparr>"

text \<open>
  Two Blue players and two picks, made in the last two slots; nothing was assigned by hand.
\<close>

definition late_picks_manager :: manager where
  "late_picks_manager = initial_manager\<lparr>
      draft := (\<lambda>_. initial_draft)
         (Blue := initial_draft\<lparr>picks := [None, None, None, Some (mk_hero ''Valla'' ''valla''),
                                           Some (mk_hero ''Jaina'' ''jaina'')]\<rparr>),
      playerStats := (\<lambda>_. [])(Blue := [Some ana, Some bob])\<rparr>"

text \<open>
  Two Blue players and three picks. The user has assigned the first player to the third pick
  and has set the second pick back to "no player" (\<open>assignPlayerToHero\<close> with \<open>null\<close>), which
  leaves its manual flag set.
\<close>

definition unassigned_manual_manager :: manager where
  "unassigned_manual_manager = initial_manager\<lparr>
      draft := (\<lambda>_. initial_draft)
         (Blue := \<lparr>bans = [None, None, None],
                   picks = [Some (mk_hero ''Valla'' ''valla''), Some (mk_hero ''Jaina'' ''jaina''),
                            Some (mk_hero ''Tracer'' ''tracer''), None, None],
                   assignments = [None, None, Some 0, None, None],
                   manualAssignments = [False, True, True, False, False]\<rparr>),
      playerStats := (\<lambda>_. [])(Blue := [Some ana, Some bob])\<rparr>"

text \<open>
  Two Blue players and two picks; the user has assigned the first player to the second pick.
\<close>

definition manual_manager :: manager where
  "manual_manager = initial_manager\<lparr>
      draft := (\<lambda>_. initial_draft)
         (Blue := \<lparr>bans = [None, None, None],
                   picks = [Some (mk_hero ''Muradin'' ''muradin''),
                            Some (mk_hero ''Zeratul'' ''zeratul''), None, None, None],
                   assignments = [Some 1, Some 0, None, None, None],
                   manualAssignments = [False, True, False, False, False]\<rparr>),
      playerStats := (\<lambda>_. [])(Blue := [Some ana, Some bob])\<rparr>"

text \<open>
  Three Blue player slots of which the middle one was emptied (\<open>removePlayerRow\<close> writes
  \<open>null\<close>), Zeratul picked by Blue, and a catalog record for Li-Ming.
\<close>

definition gap_manager :: manager where
  "gap_manager = initial_manager\<lparr>
      heroes := [mk_hero ''Zeratul'' ''zeratul'', mk_hero ''Li-Ming'' ''liming''],
      heroesData := [''Li-Ming'' \<mapsto>
         \<lparr>global = Some \<lparr>win_rate = Some 50, confidence_adjusted_delta = Some 0\<rparr>,
          maps = None, matchups = None\<rparr>],
      draft := (\<lambda>_. initial_draft)
         (Blue := initial_draft\<lparr>picks := [Some (mk_hero ''Zeratul'' ''zeratul''), None, None, None, None]\<rparr>),
      playerStats := (\<lambda>_. [])(Blue := [Some ana, None, Some bob])\<rparr>"

text \<open>
  A draft without map: Red has picked Valla and Jaina, against each of which Zeratul has a
  recorded delta of 2. The first Blue player has few Quick Match games on Tracer at a win
  rate of 90 and many Storm League games at 52; the second has 30 games on Tracer at 47. The
  battletag of the only Red player has no name before the \<open>#\<close>.
\<close>

definition quiet_manager :: manager where
  "quiet_manager = initial_manager\<lparr>
      heroes := [mk_hero ''Zeratul'' ''zeratul'', mk_hero ''Abathur'' ''abathur'',
                 mk_hero ''Tracer'' ''tracer''],
      heroesData := [
        ''Zeratul'' \<mapsto>
           \<lparr>global = Some \<lparr>win_rate = Some 50, confidence_adjusted_delta = Some 0\<rparr>,
            maps = None,
            matchups = Some [''Valla'' \<mapsto> \<lparr>enemy = Some (delta_only 2), ally = None\<rparr>,
                             ''Jaina'' \<mapsto> \<lparr>enemy = Some (delta_only 2), ally = None\<rparr>]\<rparr>,
        ''Abathur'' \<mapsto>
           \<lparr>global = Some \<lparr>win_rate = Some 50, confidence_adjusted_delta = Some 0\<rparr>,
            maps = None, matchups = None\<rparr>,
        ''Tracer'' \<mapsto>
           \<lparr>global = Some \<lparr>win_rate = Some 50, confidence_adjusted_delta = Some 0\<rparr>,
            maps = None, matchups = None\<rparr>],
      draft := (\<lambda>_. initial_draft)
         (Red := initial_draft\<lparr>picks := [Some (mk_hero ''Valla'' ''valla''),
                                          Some (mk_hero ''Jaina'' ''jaina''), None, None, None]\<rparr>),
      playerStats := (\<lambda>_. [])
         (Blue :=
            [Some \<lparr>battletag = ''aaa#1'',
                   pdata = Some [''Quick Match'' \<mapsto> [''Tracer'' \<mapsto> mk_stats 25 90],
                                 ''Storm League'' \<mapsto> [''Tracer'' \<mapsto> mk_stats 100 52]]\<rparr>,
             Some \<lparr>battletag = ''bbb#2'',
                   pdata = Some [''Quick Match'' \<mapsto> [''Tracer'' \<mapsto> mk_stats 30 47]]\<rparr>],
          Red :=
            [Some \<lparr>battletag = ''#404'',
                   pdata = Some [''Quick Match'' \<mapsto> [''Abathur'' \<mapsto> mk_stats 30 60]]\<rparr>])\<rparr>"

section \<open>Properties of the ranking\<close>

lemma with_hero_simps [simp]:
  "rec_hero (with_hero h r) = h" "breakdown (with_hero h r) = breakdown r"
  "expectedWinRate (with_hero h r) = expectedWinRate r" "total (with_hero h r) = total r"
  "tags (with_hero h r) = tags r"
  by (simp_all add: with_hero_def)

lemma hasScore_with_hero [simp]: "hasScore (with_hero h sc) = hasScore sc"
  by (simp add: hasScore_def)

lemma collect_inv:
  "collect m t hs recs = Inr out \<Longrightarrow>
   \<exists>new. out = recs @ new \<and> (\<forall>r \<in> set new. from_score m t r) \<and> subseq (map rec_hero new) hs"
proof (induction hs arbitrary: recs)
  case Nil
  then show ?case by simp
next
  case (Cons h hs)
  show ?case
  proof (cases "slug h \<notin> unavailableHeroes m \<and>
      \<not> (selectedRoles m t \<noteq> {} \<and> truthy_str (new_role h) \<and> the (new_role h) \<notin> selectedRoles m t)")
    case False
    then have "collect m t hs recs = Inr out" using Cons.prems by (auto split: if_splits)
    from Cons.IH[OF this] show ?thesis by (auto intro: subseq_Cons')
  next
    case True
    then obtain sc where sc: "calculateHeroScore m (name h) t = Inr sc"
      using Cons.prems by (auto split: sum.splits)
    show ?thesis
    proof (cases "hasScore sc")
      case False
      then have "collect m t hs recs = Inr out" using Cons.prems True sc by auto
      from Cons.IH[OF this] show ?thesis by (auto intro: subseq_Cons')
    next
      case hs: True
      then have "collect m t hs (recs @ [with_hero h sc]) = Inr out"
        using Cons.prems True sc by auto
      from Cons.IH[OF this] obtain new where
        new: "out = (recs @ [with_hero h sc]) @ new" "\<forall>r \<in> set new. from_score m t r"
             "subseq (map rec_hero new) hs" by blast
      have "from_score m t (with_hero h sc)"
        using True sc hs by (auto simp: from_score_def)
      with new show ?thesis
        by (intro exI[of _ "with_hero h sc # new"]) auto
    qed
  qed
qed

lemma getRecommendations_cases:
  assumes "getRecommendations m t = Inr recs"
  shows "\<exists>cands. recs = sort_key (\<lambda>r. - expectedWinRate r) cands \<and>
           (\<forall>r \<in> set cands. from_score m t r) \<and> subseq (map rec_hero cands) (heroes m)"
proof (cases "\<not> truthy_str (selectedMap m) \<and> \<not> getPickedHeroes m t \<noteq> [] \<and> \<not> getPickedHeroes m (enemyTeam t) \<noteq> []")
  case True
  then have "recs = []" using assms by (simp add: getRecommendations_def)
  then show ?thesis by (intro exI[of _ "[]"]) simp
next
  case False
  then obtain cands where c: "collect m t (heroes m) [] = Inr cands"
     and r: "recs = sort_key (\<lambda>r. - expectedWinRate r) cands"
    using assms by (auto simp: getRecommendations_def Let_def split: sum.splits if_splits)
  from collect_inv[OF c] show ?thesis using r by auto
qed

lemma slot_slugs_mem: "Some h \<in> set slots \<Longrightarrow> slug h \<in> set (slot_slugs slots)"
proof -
  assume "Some h \<in> set slots"
  then have "Some h \<in> set (filter (\<lambda>x. x \<noteq> None) slots)" by simp
  then have "(\<lambda>x. slug (the x)) (Some h) \<in> set (slot_slugs slots)"
    unfolding slot_slugs_def set_map by (rule imageI)
  then show ?thesis by simp
qed

lemma taken_slug:
  assumes "Some h \<in> set (bans (draft m t')) \<or> Some h \<in> set (picks (draft m t'))"
  shows "slug h \<in> unavailableHeroes m"
proof -
  have "slug h \<in> set (slot_slugs (bans (draft m t'))) \<or> slug h \<in> set (slot_slugs (picks (draft m t')))"
    using assms slot_slugs_mem by blast
  then show ?thesis
    by (cases t') (auto simp: unavailableHeroes_def)
qed


lemma demo_blue: "getRecommendations demo_manager Blue = Inr demo_blue_recs"
  by code_simp

lemma demo_red: "getRecommendations demo_manager Red = Inr demo_red_recs"
  by code_simp

text \<open>
  Claim C3. A hero that occupies a ban slot or a pick slot of either side is not in the list
  returned by \<open>getRecommendations\<close>: the slug of every listed hero is outside the set of
  unavailable slugs, so no listed hero sits in any ban or pick slot.
\<close>

theorem recommendations_exclude_drafted:
  assumes "getRecommendations m t = Inr recs" and "r \<in> set recs"
  shows "slug (rec_hero r) \<notin> unavailableHeroes m \<and>
         (\<forall>t'. Some (rec_hero r) \<notin> set (bans (draft m t')) \<and>
               Some (rec_hero r) \<notin> set (picks (draft m t')))"
proof -
  from getRecommendations_cases[OF assms(1)] assms(2) have "from_score m t r" by auto
  then have "slug (rec_hero r) \<notin> unavailableHeroes m" by (simp add: from_score_def)
  then show ?thesis using taken_slug[of "rec_hero r" m] by blast
qed

theorem recommendations_exclude_drafted_witness:
  "getRecommendations demo_manager Blue = Inr demo_blue_recs \<and>
   demo_blue_recs ! 0 \<in> set demo_blue_recs \<and>
   slug (rec_hero (demo_blue_recs ! 0)) \<notin> unavailableHeroes demo_manager \<and>
   (\<forall>t'. Some (rec_hero (demo_blue_recs ! 0)) \<notin> set (bans (draft demo_manager t')) \<and>
         Some (rec_hero (demo_blue_recs ! 0)) \<notin> set (picks (draft demo_manager t')))"
proof -
  have mem: "demo_blue_recs ! 0 \<in> set demo_blue_recs" by (simp add: demo_blue_recs_def)
  from recommendations_exclude_drafted[OF demo_blue mem] demo_blue mem show ?thesis by simp
qed

text \<open>
  Claim C4, as the code has it. The returned list is in decreasing order of expected win rate,
  and recommendations with equal expected win rate keep the order in which their heroes
  stand in \<open>this.heroes\<close>: the comparator looks at the win rate only and the sort is stable.
  The order is deterministic, but ties are not ordered by hero id.
\<close>

theorem ranking_descending_and_stable:
  assumes "getRecommendations m t = Inr recs"
  shows "sorted_wrt (\<lambda>a b. expectedWinRate a \<ge> expectedWinRate b) recs \<and>
         (\<forall>k. subseq (map rec_hero (filter (\<lambda>r. expectedWinRate r = k) recs)) (heroes m))"
proof -
  from getRecommendations_cases[OF assms] obtain cands where
    recs: "recs = sort_key (\<lambda>r. - expectedWinRate r) cands" and
    sub: "subseq (map rec_hero cands) (heroes m)" by blast
  have "sorted (map (\<lambda>r. - expectedWinRate r) recs)" unfolding recs by (rule sorted_sort_key)
  then have desc: "sorted_wrt (\<lambda>a b. expectedWinRate a \<ge> expectedWinRate b) recs"
    by (simp add: sorted_map)
  have stable: "subseq (map rec_hero (filter (\<lambda>r. expectedWinRate r = k) recs)) (heroes m)" for k
  proof -
    have "filter (\<lambda>r. - expectedWinRate r = - k) recs = filter (\<lambda>r. - expectedWinRate r = - k) cands"
      unfolding recs by (rule sort_key_stable)
    then have "filter (\<lambda>r. expectedWinRate r = k) recs = filter (\<lambda>r. expectedWinRate r = k) cands"
      by simp
    moreover have "subseq (map rec_hero (filter (\<lambda>r. expectedWinRate r = k) cands)) (map rec_hero cands)"
      by (simp add: subseq_map)
    ultimately show ?thesis using sub subseq_order.order_trans by metis
  qed
  from desc stable show ?thesis by blast
qed

theorem ranking_descending_and_stable_witness:
  "getRecommendations demo_manager Red = Inr demo_red_recs \<and>
   sorted_wrt (\<lambda>a b. expectedWinRate a \<ge> expectedWinRate b) demo_red_recs \<and>
   (\<forall>k. subseq (map rec_hero (filter (\<lambda>r. expectedWinRate r = k) demo_red_recs)) (heroes demo_manager))"
  using ranking_descending_and_stable[OF demo_red] demo_red by simp

text \<open>
  For Red in the sample draft Zeratul and Abathur both have an expected win rate of 56 and come
  out in catalog order, Zeratul first, against the order of their names and of their slugs.
\<close>

theorem ranking_ties_not_by_id:
  "getRecommendations demo_manager Red = Inr demo_red_recs \<and>
   \<not> ordered_by_rate_then_id name demo_red_recs \<and> \<not> ordered_by_rate_then_id slug demo_red_recs"
  by code_simp

lemma from_score_catalog:
  assumes "from_score m t r"
  shows "heroesData m (name (rec_hero r)) \<noteq> None"
proof
  assume none: "heroesData m (name (rec_hero r)) = None"
  from assms obtain sc where sc: "calculateHeroScore m (name (rec_hero r)) t = Inr sc"
     and r: "r = with_hero (rec_hero r) sc" and hs: "hasScore r"
    by (auto simp: from_score_def)
  from sc none have "breakdown sc = []" by (auto simp: calculateHeroScore_def)
  then have "breakdown r = []" using r by (metis with_hero_simps(2))
  with hs show False by (simp add: hasScore_def)
qed

text \<open>
  Claim C10. \<open>getRecommendations\<close> lists a hero only if its score has a breakdown component
  different from 0: a hero whose score has all components equal to 0 is left out whatever the
  match context is, and a hero without catalog record (whose breakdown is empty) is never
  listed, so the list need not contain every undrafted role-permitted hero.
\<close>

theorem zero_score_heroes_omitted:
  assumes "getRecommendations m t = Inr recs"
  shows "(\<forall>r \<in> set recs. heroesData m (name (rec_hero r)) \<noteq> None \<and>
            (\<exists>sc. calculateHeroScore m (name (rec_hero r)) t = Inr sc \<and>
                  breakdown r = breakdown sc \<and> (\<exists>v \<in> set (map snd (breakdown sc)). v \<noteq> 0))) \<and>
         (\<forall>h sc. calculateHeroScore m (name h) t = Inr sc \<and>
                 (\<forall>v \<in> set (map snd (breakdown sc)). v = 0) \<longrightarrow> h \<notin> rec_hero ` set recs)"
proof -
  have listed: "heroesData m (name (rec_hero r)) \<noteq> None \<and>
            (\<exists>sc. calculateHeroScore m (name (rec_hero r)) t = Inr sc \<and>
                  breakdown r = breakdown sc \<and> (\<exists>v \<in> set (map snd (breakdown sc)). v \<noteq> 0))"
    if "r \<in> set recs" for r
  proof -
    from getRecommendations_cases[OF assms] that have fs: "from_score m t r" by auto
    then obtain sc where sc: "calculateHeroScore m (name (rec_hero r)) t = Inr sc"
      and r: "r = with_hero (rec_hero r) sc" and hs: "hasScore r"
      by (auto simp: from_score_def)
    have bd: "breakdown r = breakdown sc" using r by (metis with_hero_simps(2))
    with hs have "\<exists>v \<in> set (map snd (breakdown sc)). v \<noteq> 0"
      by (simp add: hasScore_def list_ex_iff)
    with sc bd from_score_catalog[OF fs] show ?thesis by blast
  qed
  have omitted: "h \<notin> rec_hero ` set recs"
    if "calculateHeroScore m (name h) t = Inr sc" "\<forall>v \<in> set (map snd (breakdown sc)). v = 0" for h sc
  proof
    assume "h \<in> rec_hero ` set recs"
    then obtain r where r: "r \<in> set recs" "rec_hero r = h" by auto
    from listed[OF r(1)] obtain sc' where
      sc': "calculateHeroScore m (name (rec_hero r)) t = Inr sc'"
           "\<exists>v \<in> set (map snd (breakdown sc')). v \<noteq> 0" by blast
    from sc'(1) that(1) r(2) have "sc' = sc" by simp
    with sc'(2) that(2) show False by blast
  qed
  have first: "\<forall>r \<in> set recs. heroesData m (name (rec_hero r)) \<noteq> None \<and>
            (\<exists>sc. calculateHeroScore m (name (rec_hero r)) t = Inr sc \<and>
                  breakdown r = breakdown sc \<and> (\<exists>v \<in> set (map snd (breakdown sc)). v \<noteq> 0))"
    by (intro ballI listed)
  have second: "\<forall>h sc. calculateHeroScore m (name h) t = Inr sc \<and>
                 (\<forall>v \<in> set (map snd (breakdown sc)). v = 0) \<longrightarrow> h \<notin> rec_hero ` set recs"
  proof (intro allI impI)
    fix h :: hero and sc :: score_result
    assume "calculateHeroScore m (name h) t = Inr sc \<and>
                 (\<forall>v \<in> set (map snd (breakdown sc)). v = 0)"
    then have "calculateHeroScore m (name h) t = Inr sc"
      and "\<forall>v \<in> set (map snd (breakdown sc)). v = 0" by simp_all
    then show "h \<notin> rec_hero ` set recs" by (rule omitted)
  qed
  from first second show ?thesis by (rule conjI)
qed

lemma demo_tracer:
  "calculateHeroScore demo_manager ''Tracer'' Blue =
     Inr \<lparr>total = 0,
          breakdown = [(''global'', 0), (''map'', 0), (''vsEnemy'', 0), (''withAllies'', 0),
                       (''playerDelta'', 0)],
          tags = [], expectedWinRate = 50, baseWinRate = Some 50\<rparr>"
  by code_simp

lemma demo_li_ming:
  "calculateHeroScore demo_manager ''Li-Ming'' Blue =
     Inr \<lparr>total = 0, breakdown = [], tags = [], expectedWinRate = 50, baseWinRate = None\<rparr>"
  by code_simp

text \<open>
  In the sample draft a map is selected and no role filter is set; Tracer (all components 0)
  and Li-Ming (no catalog record) are undrafted and are missing from Blue's list.
\<close>

theorem zero_score_heroes_omitted_witness:
  "getRecommendations demo_manager Blue = Inr demo_blue_recs \<and>
   truthy_str (selectedMap demo_manager) \<and> selectedRoles demo_manager Blue = {} \<and>
   mk_hero ''Tracer'' ''tracer'' \<in> set (heroes demo_manager) \<and>
   ''tracer'' \<notin> unavailableHeroes demo_manager \<and>
   mk_hero ''Tracer'' ''tracer'' \<notin> rec_hero ` set demo_blue_recs \<and>
   mk_hero ''Li-Ming'' ''liming'' \<in> set (heroes demo_manager) \<and>
   ''liming'' \<notin> unavailableHeroes demo_manager \<and>
   heroesData demo_manager ''Li-Ming'' = None \<and>
   mk_hero ''Li-Ming'' ''liming'' \<notin> rec_hero ` set demo_blue_recs \<and>
   map (\<lambda>r. name (rec_hero r)) demo_blue_recs = [''Zeratul'', ''Abathur'', ''Jaina''] \<and>
   list_all (\<lambda>r. heroesData demo_manager (name (rec_hero r)) \<noteq> None) demo_blue_recs"
proof -
  note z = zero_score_heroes_omitted[OF demo_blue]
  have ctx: "truthy_str (selectedMap demo_manager) \<and> selectedRoles demo_manager Blue = {} \<and>
     mk_hero ''Tracer'' ''tracer'' \<in> set (heroes demo_manager) \<and>
     ''tracer'' \<notin> unavailableHeroes demo_manager \<and>
     mk_hero ''Li-Ming'' ''liming'' \<in> set (heroes demo_manager) \<and>
     ''liming'' \<notin> unavailableHeroes demo_manager \<and>
     map (\<lambda>r. name (rec_hero r)) demo_blue_recs = [''Zeratul'', ''Abathur'', ''Jaina'']"
    by code_simp
  have none: "heroesData demo_manager ''Li-Ming'' = None"
    by (simp add: demo_manager_def)
  have n1: "name (mk_hero ''Tracer'' ''tracer'') = ''Tracer''"
    and n2: "name (mk_hero ''Li-Ming'' ''liming'') = ''Li-Ming''" by (simp_all add: mk_hero_def)
  have t: "mk_hero ''Tracer'' ''tracer'' \<notin> rec_hero ` set demo_blue_recs"
    by (rule z[THEN conjunct2, rule_format], rule conjI, unfold n1, rule demo_tracer) simp
  have l: "mk_hero ''Li-Ming'' ''liming'' \<notin> rec_hero ` set demo_blue_recs"
    by (rule z[THEN conjunct2, rule_format], rule conjI, unfold n2, rule demo_li_ming) simp
  from z[THEN conjunct1]
  have c: "list_all (\<lambda>r. heroesData demo_manager (name (rec_hero r)) \<noteq> None) demo_blue_recs"
    unfolding list_all_iff by blast
  from demo_blue ctx none t l c show ?thesis by blast
qed

section \<open>Properties of the scoring\<close>

subsection \<open>The per-player delta\<close>

text \<open>
  Claim C5 asks for the win rate minus 50, capped to the interval from -5 to 5, once a bucket
  holds 25 games. \<open>heroStats.win_rate || 50\<close> reads a recorded win rate of 0 as 50: a player
  with 30 games on a hero and no win gets the delta 0, where the capped difference is -5.
\<close>

theorem winless_player_delta_is_zero:
  "getPlayerHeroWinRateDelta winless_player ''Abathur'' = 0 \<and> cap5 (0 - 50) = - 5"
  by code_simp

text \<open>
  What the loop over the two buckets computes: 0 below 25 games in both, else the capped delta
  of the bucket with more games, Quick Match winning a tie.
\<close>

lemma player_delta_cases:
  assumes "p = Some pl" and "pdata pl = Some pd"
  shows "getPlayerHeroWinRateDelta p h =
         (let q = bucket_games pd ''Quick Match'' h; s = bucket_games pd ''Storm League'' h in
          if q < 25 \<and> s < 25 then 0
          else if s \<ge> 25 \<and> s > q then bucket_delta pd ''Storm League'' h
          else bucket_delta pd ''Quick Match'' h)"
  using assms
  by (auto simp: getPlayerHeroWinRateDelta_def gameTypes_def bucket_step_def bucket_games_def
        bucket_delta_def bucket_stats_def Let_def split: option.splits)

lemma player_delta_capped: "- 5 \<le> getPlayerHeroWinRateDelta p h \<and> getPlayerHeroWinRateDelta p h \<le> 5"
proof (cases p)
  case None
  then show ?thesis by (simp add: getPlayerHeroWinRateDelta_def)
next
  case (Some pl)
  show ?thesis
  proof (cases "pdata pl")
    case None
    with Some show ?thesis by (simp add: getPlayerHeroWinRateDelta_def)
  next
    case (Some pd)
    have "- 5 \<le> bucket_delta pd g h \<and> bucket_delta pd g h \<le> 5" for g
      by (auto simp: bucket_delta_def cap5_def split: option.splits)
    then show ?thesis
      unfolding player_delta_cases[OF \<open>p = Some pl\<close> Some] Let_def by auto
  qed
qed

subsection \<open>The player component\<close>

lemma foldl_inv:
  "P a \<Longrightarrow> (\<And>b x. P b \<Longrightarrow> x \<in> set xs \<Longrightarrow> P (f b x)) \<Longrightarrow> P (foldl f a xs)"
  by (induction xs arbitrary: a) auto

lemma foldl_mono:
  fixes g :: "'a \<Rightarrow> rat"
  assumes "\<And>b x. g b \<le> g (f b x)"
  shows "g a \<le> g (foldl f a xs)"
proof (induction xs arbitrary: a)
  case Nil
  show ?case by simp
next
  case (Cons x xs)
  have "g a \<le> g (f a x)" by (rule assms)
  also have "\<dots> \<le> g (foldl f (f a x) xs)" by (rule Cons.IH)
  finally show ?case by simp
qed

lemma foldl_hit:
  fixes g :: "'a \<Rightarrow> rat"
  assumes mono: "\<And>b y. g b \<le> g (f b y)" and hit: "\<And>b. c \<le> g (f b x)" and mem: "x \<in> set xs"
  shows "c \<le> g (foldl f a xs)"
  using mem
proof (induction xs arbitrary: a)
  case Nil
  then show ?case by simp
next
  case (Cons y ys)
  show ?case
  proof (cases "x = y")
    case True
    have "c \<le> g (f a y)" using hit True by simp
    also have "\<dots> \<le> g (foldl f (f a y) ys)" using mono by (rule foldl_mono[where g = g and f = f])
    finally show ?thesis by simp
  next
    case False
    with Cons.prems have "x \<in> set ys" by simp
    from Cons.IH[OF this] show ?thesis by simp
  qed
qed

lemma player_loop_filter:
  "foldl (player_step asg pks h) b ips =
   foldl keep_larger b
     (map (\<lambda>ip. getPlayerHeroWinRateDelta (snd ip) h)
        (filter (\<lambda>ip. valid_player (snd ip) \<and> \<not> isAssignedToHero asg pks (fst ip)) ips))"
  by (induction ips arbitrary: b) (auto simp: player_step_def keep_larger_def Let_def)

lemma keep_larger_bound: "d \<in> set ds \<Longrightarrow> \<bar>d\<bar> \<le> \<bar>foldl keep_larger b ds\<bar>"
  by (rule foldl_hit[where g = abs and f = keep_larger]) (auto simp: keep_larger_def)

lemma keep_larger_mem: "foldl keep_larger b ds = b \<or> foldl keep_larger b ds \<in> set ds"
  by (induction ds arbitrary: b) (auto simp: keep_larger_def)

lemma getPlayerWinRateDelta_eq:
  "getPlayerWinRateDelta m h t asg =
   foldl keep_larger 0
     (map (\<lambda>p. getPlayerHeroWinRateDelta p h) (available_players asg (picks (draft m t)) (playerStats m t)))"
  by (simp add: getPlayerWinRateDelta_def Let_def player_loop_filter available_players_def comp_def)

lemma getPlayerWinRateDelta_max:
  assumes "p \<in> set (available_players asg (picks (draft m t)) (playerStats m t))"
  shows "\<bar>getPlayerHeroWinRateDelta p h\<bar> \<le> \<bar>getPlayerWinRateDelta m h t asg\<bar>"
  unfolding getPlayerWinRateDelta_eq using assms by (intro keep_larger_bound) simp

lemma getPlayerWinRateDelta_mem:
  "getPlayerWinRateDelta m h t asg = 0 \<or>
   (\<exists>p \<in> set (available_players asg (picks (draft m t)) (playerStats m t)).
       getPlayerWinRateDelta m h t asg = getPlayerHeroWinRateDelta p h)"
  unfolding getPlayerWinRateDelta_eq
  using keep_larger_mem[of 0 "map (\<lambda>p. getPlayerHeroWinRateDelta p h) (available_players asg (picks (draft m t)) (playerStats m t))"]
  by auto

lemma isAssignedToHero_iff:
  "isAssignedToHero asg pks i \<longleftrightarrow>
   (\<exists>slotIdx < length asg. asg ! slotIdx = Some i \<and> pick_not_null pks slotIdx)"
  by (auto simp: isAssignedToHero_def list_ex_iff in_set_enumerate_eq)

lemma available_players_iff:
  "p \<in> set (available_players asg pks players) \<longleftrightarrow>
   (\<exists>i < length players. players ! i = p \<and> valid_player p \<and> \<not> isAssignedToHero asg pks i)"
  by (auto simp: available_players_def in_set_enumerate_eq image_iff)

lemma player_part_fst:
  "fst (player_part m h t) = getPlayerWinRateDelta m h t (assignments (draft m t))"
  by (auto simp: player_part_def Let_def split: prod.splits)

lemma score_decompose:
  assumes "calculateHeroScore m h t = Inr r" and "heroesData m h = Some heroData"
  shows "\<exists>mapD mapTags vsEnemy enemyTags withAllies allyTags.
           map_part m heroData = Inr (mapD, mapTags) \<and>
           matchup_part enemy enemy_tag heroData (getPickedHeroes m (enemyTeam t)) = Inr (vsEnemy, enemyTags) \<and>
           matchup_part ally ally_tag heroData (getPickedHeroes m t) = Inr (withAllies, allyTags) \<and>
           breakdown r = [(''global'', global_part heroData), (''map'', mapD), (''vsEnemy'', vsEnemy),
                          (''withAllies'', withAllies), (''playerDelta'', fst (player_part m h t))] \<and>
           tags r = mapTags @ enemyTags @ allyTags @ snd (player_part m h t) \<and>
           total r = global_part heroData + mapD + vsEnemy + withAllies + fst (player_part m h t) \<and>
           expectedWinRate r = 50 + total r"
  using assms
  by (auto simp: calculateHeroScore_def Let_def split: sum.splits prod.splits)


text \<open>
  What the loop of \<open>getPlayerWinRateDelta\<close> computes. For a hero that has a catalog record,
  the \<open>playerDelta\<close> component of a returned score is the per-player delta of greatest
  magnitude among the profiles whose own index in \<open>playerStats\<close> is not held by an assignment
  slot with a non-null pick, or 0 when there is no such profile: its magnitude bounds the
  delta of every such profile, and it is 0 or the delta of one of them.
\<close>

lemma playerDelta_by_slot_index:
  assumes "calculateHeroScore m h t = Inr r" and "heroesData m h \<noteq> None"
    and "wf_team_draft (draft m t)"
  shows "\<exists>d. component r ''playerDelta'' = Some d \<and>
           (\<forall>i < length (playerStats m t).
               valid_player (playerStats m t ! i) \<and>
               \<not> (\<exists>slot < 5. assignments (draft m t) ! slot = Some i \<and> picks (draft m t) ! slot \<noteq> None)
               \<longrightarrow> \<bar>getPlayerHeroWinRateDelta (playerStats m t ! i) h\<bar> \<le> \<bar>d\<bar>) \<and>
           (d = 0 \<or>
            (\<exists>i < length (playerStats m t).
               valid_player (playerStats m t ! i) \<and>
               \<not> (\<exists>slot < 5. assignments (draft m t) ! slot = Some i \<and> picks (draft m t) ! slot \<noteq> None) \<and>
               d = getPlayerHeroWinRateDelta (playerStats m t ! i) h))"
proof -
  let ?asg = "assignments (draft m t)" and ?pks = "picks (draft m t)" and ?ps = "playerStats m t"
  let ?d = "getPlayerWinRateDelta m h t ?asg"
  from assms(2) obtain heroData where hd: "heroesData m h = Some heroData" by auto
  from score_decompose[OF assms(1) hd] have "component r ''playerDelta'' = Some ?d"
    by (auto simp: component_def player_part_fst)
  moreover have taken: "isAssignedToHero ?asg ?pks i \<longleftrightarrow>
      (\<exists>slot < 5. ?asg ! slot = Some i \<and> ?pks ! slot \<noteq> None)" for i
    using assms(3) by (auto simp: isAssignedToHero_iff wf_team_draft_def pick_not_null_def)
  have "\<bar>getPlayerHeroWinRateDelta (?ps ! i) h\<bar> \<le> \<bar>?d\<bar>"
    if "i < length ?ps" "valid_player (?ps ! i)" "\<not> isAssignedToHero ?asg ?pks i" for i
    using that by (intro getPlayerWinRateDelta_max) (auto simp: available_players_iff)
  moreover have "?d = 0 \<or> (\<exists>i < length ?ps. valid_player (?ps ! i) \<and> \<not> isAssignedToHero ?asg ?pks i \<and>
        ?d = getPlayerHeroWinRateDelta (?ps ! i) h)"
    using getPlayerWinRateDelta_mem[of m h t ?asg] by (auto simp: available_players_iff)
  ultimately show ?thesis unfolding taken by blast
qed

lemma demo_zeratul: "calculateHeroScore demo_manager ''Zeratul'' Blue = Inr demo_zeratul_score"
  by code_simp

text \<open>
  Claim C6 does not hold of the code. The assignment slots hold positions in the list of
  valid players (\<open>assignHeroesToPlayers\<close>, lines 1865-1909), whereas the loop of
  \<open>getPlayerWinRateDelta\<close> compares them with positions in \<open>playerStats\<close> (lines 1598-1609);
  the two numberings differ as soon as a player row has been emptied. With the Blue player
  rows ana, (empty), bob and Zeratul picked, the resolver binds the pick to valid player 1,
  who is bob; in the loop bob has index 2, which no slot holds, so bob's delta of 5 on
  Li-Ming becomes the \<open>playerDelta\<close> of Li-Ming. The only player not bound to a picked hero
  is ana, whose delta on Li-Ming is 0.
\<close>

theorem bound_player_still_contributes:
  "map (map_option battletag) (playerStats (assignHeroesToPlayers gap_manager Blue) Blue) =
     [Some ''ana#1234'', None, Some ''bob#77''] \<and>
   map (map_option battletag) (validPlayers (assignHeroesToPlayers gap_manager Blue) Blue) =
     [Some ''ana#1234'', Some ''bob#77''] \<and>
   picks (draft (assignHeroesToPlayers gap_manager Blue) Blue) =
     [Some (mk_hero ''Zeratul'' ''zeratul''), None, None, None, None] \<and>
   assignments (draft (assignHeroesToPlayers gap_manager Blue) Blue) =
     [Some 1, Some 0, None, None, None] \<and>
   map (\<lambda>p. getPlayerHeroWinRateDelta p ''Li-Ming'')
     (validPlayers (assignHeroesToPlayers gap_manager Blue) Blue) = [0, 5] \<and>
   calculateHeroScore (assignHeroesToPlayers gap_manager Blue) ''Li-Ming'' Blue =
     Inr \<lparr>total = 5,
          breakdown = [(''global'', 0), (''map'', 0), (''vsEnemy'', 0), (''withAllies'', 0),
                       (''playerDelta'', 5)],
          tags = [\<lparr>label = PlayerWR ''bob'' 60, score = 5, winRate = None, tag_type = ''player''\<rparr>],
          expectedWinRate = 55, baseWinRate = Some 50\<rparr>"
  by code_simp

subsection \<open>The matchup components and the total\<close>

lemma matchup_loop_sum:
  "matchup_loop side mk heroData ms hs acc = Inr res \<Longrightarrow>
   fst res = fst acc +
     sum_list (map (\<lambda>h. case matchup_delta side ms (name h) of None \<Rightarrow> 0 | Some d \<Rightarrow> d) hs)"
proof (induction hs arbitrary: acc)
  case Nil
  then show ?case by simp
next
  case (Cons h hs)
  show ?case
  proof (cases "matchup_delta side ms (name h)")
    case None
    with Cons.prems have "matchup_loop side mk heroData ms hs acc = Inr res" by simp
    from Cons.IH[OF this] None show ?thesis by simp
  next
    case (Some delta)
    show ?thesis
    proof (cases "\<bar>delta\<bar> \<ge> 3")
      case True
      with Cons.prems Some obtain w where
        "matchup_loop side mk heroData ms hs (fst acc + delta, snd acc @ [mk (name h) delta w]) = Inr res"
        by (auto split: sum.splits)
      from Cons.IH[OF this] Some show ?thesis by simp
    next
      case False
      with Cons.prems Some have
        "matchup_loop side mk heroData ms hs (fst acc + delta, snd acc) = Inr res" by simp
      from Cons.IH[OF this] Some show ?thesis by simp
    qed
  qed
qed

lemma matchup_part_sum:
  assumes "matchup_part side mk heroData pks = Inr res"
  shows "fst res = sum_list (map (\<lambda>h. side_delta side heroData (name h)) pks)"
proof (cases "pks \<noteq> [] \<and> matchups heroData \<noteq> None")
  case True
  then obtain ms where ms: "matchups heroData = Some ms" by auto
  with True assms have "matchup_loop side mk heroData ms pks (0, []) = Inr res"
    by (simp add: matchup_part_def)
  from matchup_loop_sum[OF this] ms show ?thesis by (simp add: side_delta_def)
next
  case False
  then have "res = (0, [])" using assms by (auto simp: matchup_part_def)
  moreover have "sum_list (map (\<lambda>h. side_delta side heroData (name h)) pks) = 0"
    using False by (cases "pks = []") (auto simp: side_delta_def)
  ultimately show ?thesis by simp
qed

text \<open>
  The \<open>withAllies\<close> and \<open>vsEnemy\<close> components are the sums of the recorded deltas over all
  picks of the own and of the enemy side.
\<close>

lemma withAllies_sum:
  assumes "calculateHeroScore m h t = Inr r" and "heroesData m h = Some heroData"
  shows "component r ''withAllies'' =
         Some (sum_list (map (\<lambda>a. side_delta ally heroData (name a)) (getPickedHeroes m t)))"
proof -
  from score_decompose[OF assms] obtain withAllies allyTags mapD vsEnemy where
    a: "matchup_part ally ally_tag heroData (getPickedHeroes m t) = Inr (withAllies, allyTags)" and
    b: "breakdown r = [(''global'', global_part heroData), (''map'', mapD), (''vsEnemy'', vsEnemy),
                          (''withAllies'', withAllies), (''playerDelta'', fst (player_part m h t))]"
    by blast
  from matchup_part_sum[OF a] b show ?thesis by (simp add: component_def)
qed

lemma vsEnemy_sum:
  assumes "calculateHeroScore m h t = Inr r" and "heroesData m h = Some heroData"
  shows "component r ''vsEnemy'' =
         Some (sum_list (map (\<lambda>e. side_delta enemy heroData (name e)) (getPickedHeroes m (enemyTeam t))))"
proof -
  from score_decompose[OF assms] obtain vsEnemy enemyTags mapD withAllies where
    a: "matchup_part enemy enemy_tag heroData (getPickedHeroes m (enemyTeam t)) = Inr (vsEnemy, enemyTags)" and
    b: "breakdown r = [(''global'', global_part heroData), (''map'', mapD), (''vsEnemy'', vsEnemy),
                          (''withAllies'', withAllies), (''playerDelta'', fst (player_part m h t))]"
    by blast
  from matchup_part_sum[OF a] b show ?thesis by (simp add: component_def)
qed

text \<open>With two picked allies the component is the sum of the two recorded deltas.\<close>

lemma withAllies_two_allies:
  assumes "calculateHeroScore m h t = Inr r" and "heroesData m h = Some heroData"
    and "getPickedHeroes m t = [a, b]"
  shows "component r ''withAllies'' =
         Some (side_delta ally heroData (name a) + side_delta ally heroData (name b))"
  unfolding withAllies_sum[OF assms(1,2)] assms(3) by simp

text \<open>
  A returned score has \<open>expectedWinRate = 50 + total\<close>, and its total is the sum of the five
  components; scoring returns whenever the catalog entry has a \<open>global\<close> block.
\<close>

lemma score_total:
  assumes "calculateHeroScore m h t = Inr r"
  shows "expectedWinRate r = 50 + total r \<and>
         (case heroesData m h of
            None \<Rightarrow> total r = 0 \<and> breakdown r = []
          | Some heroData \<Rightarrow>
              (\<exists>g mp v w p.
                 component r ''global'' = Some g \<and> component r ''map'' = Some mp \<and>
                 component r ''vsEnemy'' = Some v \<and> component r ''withAllies'' = Some w \<and>
                 component r ''playerDelta'' = Some p \<and> total r = g + mp + v + w + p))"
proof (cases "heroesData m h")
  case None
  with assms show ?thesis by (auto simp: calculateHeroScore_def)
next
  case (Some heroData)
  from score_decompose[OF assms Some] Some show ?thesis
    by (auto simp: component_def)
qed

lemma score_returns_with_global:
  assumes "heroesData m h = Some heroData" and "global heroData \<noteq> None"
  shows "\<exists>r. calculateHeroScore m h t = Inr r"
proof -
  from assms(2) have g: "\<exists>w. global_win_rate heroData = Inr w"
    by (auto simp: global_win_rate_def)
  have loop: "\<exists>res. matchup_loop side mk heroData ms hs acc = Inr res" for side mk ms hs acc
    using g by (induction hs arbitrary: acc) (auto split: option.splits)
  have mp: "\<exists>res. map_part m heroData = Inr res"
    using g by (auto simp: map_part_def split: option.splits)
  have "\<exists>res. matchup_part side mk heroData pks = Inr res" for side mk pks
    using loop[of side mk "the (matchups heroData)" pks "(0, [])"] by (auto simp: matchup_part_def)
  then obtain e a where "matchup_part enemy enemy_tag heroData (getPickedHeroes m (enemyTeam t)) = Inr e"
    "matchup_part ally ally_tag heroData (getPickedHeroes m t) = Inr a" by blast
  with mp assms(1) show ?thesis
    by (auto simp: calculateHeroScore_def Let_def split: prod.splits)
qed

text \<open>
  Claim C1 asks that scoring never throws and defaults missing records to 0. The guard on
  \<open>heroData.global\<close> of lines 1970 and 2097 is missing where the tags are built (lines
  1985, 2009 and 2033): for a hero whose catalog entry has a map delta of 4 on the selected map
  and no \<open>global\<close> block, \<open>calculateHeroScore\<close> raises a TypeError, and so does
  \<open>getRecommendations\<close>. With the \<open>global\<close> block present, or without catalog record, the
  score is returned and its total is as claimed (\<open>score_returns_with_global\<close>,
  \<open>score_total\<close>).
\<close>

theorem score_throws_without_global:
  "calculateHeroScore no_global_manager ''Abathur'' Blue = Inl TypeError \<and>
   getRecommendations no_global_manager Blue = Inl TypeError"
  by code_simp

text \<open>
  Claim C7 asks for the sum over the picked allies other than the hero being scored. The loop
  of lines 2024-2045 runs over all own picks (the tooltip of line 653 filters the hero
  itself out, \<open>calculateHeroScore\<close> does not): when Muradin is picked by Blue and the catalog
  records an as-ally delta of 2 for Muradin under its own name, scoring Muradin for Blue gives
  \<open>withAllies = 2\<close>, although no other ally is picked.
\<close>

theorem self_matchup_counted_as_ally:
  "calculateHeroScore self_matchup_manager ''Muradin'' Blue =
     Inr \<lparr>total = 3,
          breakdown = [(''global'', 1), (''map'', 0), (''vsEnemy'', 0), (''withAllies'', 2),
                       (''playerDelta'', 0)],
          tags = [], expectedWinRate = 53, baseWinRate = Some 51\<rparr> \<and>
   filter (\<lambda>a. name a \<noteq> ''Muradin'') (getPickedHeroes self_matchup_manager Blue) = []"
  by code_simp

subsection \<open>The tags\<close>

lemma map_part_tags:
  assumes "map_part m heroData = Inr (d, tgs)"
  shows "(\<forall>tg \<in> set tgs. tag_type tg = ''map'') \<and>
         (\<bar>d\<bar> \<ge> 3 \<longrightarrow>
            (\<exists>e \<in> set (maps_list m). Some (map_slug e) = selectedMap m \<and>
               (\<exists>tg \<in> set tgs. tag_type tg = ''map'' \<and> score tg = d \<and>
                   label tg = (if d > 0 then GoodOn (map_name e) else WeakOn (map_name e)))))"
proof (cases "truthy_str (selectedMap m) \<and> maps heroData \<noteq> None")
  case False
  with assms have "d = 0 \<and> tgs = []" by (auto simp: map_part_def)
  then show ?thesis by simp
next
  case True
  show ?thesis
  proof (cases "find (\<lambda>e. Some (map_slug e) = selectedMap m) (maps_list m)")
    case None
    with assms True have "d = 0 \<and> tgs = []" by (auto simp: map_part_def)
    then show ?thesis by simp
  next
    case (Some e)
    then have e: "e \<in> set (maps_list m)" "Some (map_slug e) = selectedMap m"
      by (auto simp: find_Some_iff in_set_conv_nth)
    from assms True Some have
      "d = 0 \<and> tgs = [] \<or>
       (\<bar>d\<bar> < 3 \<and> tgs = []) \<or>
       (\<exists>w. tgs = [\<lparr>label = (if d > 0 then GoodOn (map_name e) else WeakOn (map_name e)),
                     score = d, winRate = Some (w + d), tag_type = ''map''\<rparr>])"
      by (auto simp: map_part_def split: option.splits if_splits sum.splits)
    then show ?thesis using e by (elim disjE exE) (auto intro!: bexI[of _ e])
  qed
qed

lemma enemy_tag_kind: "tag_type (enemy_tag n d w) \<in> tag_kinds"
  by (simp add: enemy_tag_def tag_kinds_def)

lemma ally_tag_kind: "tag_type (ally_tag n d w) \<in> tag_kinds"
  by (simp add: ally_tag_def tag_kinds_def)

lemma matchup_loop_kinds:
  assumes "\<And>n d w. tag_type (mk n d w) \<in> tag_kinds"
  shows "matchup_loop side mk heroData ms hs acc = Inr res \<Longrightarrow>
         \<forall>tg \<in> set (snd acc). tag_type tg \<in> tag_kinds \<Longrightarrow>
         \<forall>tg \<in> set (snd res). tag_type tg \<in> tag_kinds"
proof (induction hs arbitrary: acc)
  case Nil
  then show ?case by simp
next
  case (Cons h hs)
  show ?case
  proof (cases "matchup_delta side ms (name h)")
    case None
    with Cons.prems have "matchup_loop side mk heroData ms hs acc = Inr res" by simp
    from Cons.IH[OF this Cons.prems(2)] show ?thesis .
  next
    case (Some delta)
    show ?thesis
    proof (cases "\<bar>delta\<bar> \<ge> 3")
      case True
      with Cons.prems Some obtain w where l:
        "matchup_loop side mk heroData ms hs (fst acc + delta, snd acc @ [mk (name h) delta w]) = Inr res"
        by (auto split: sum.splits)
      show ?thesis by (rule Cons.IH[OF l]) (use Cons.prems(2) assms in auto)
    next
      case False
      with Cons.prems Some have l:
        "matchup_loop side mk heroData ms hs (fst acc + delta, snd acc) = Inr res" by simp
      show ?thesis by (rule Cons.IH[OF l]) (use Cons.prems(2) in auto)
    qed
  qed
qed

lemma matchup_loop_keeps:
  "matchup_loop side mk heroData ms hs acc = Inr res \<Longrightarrow> set (snd acc) \<subseteq> set (snd res)"
proof (induction hs arbitrary: acc)
  case Nil
  then show ?case by simp
next
  case (Cons h hs)
  show ?case
  proof (cases "matchup_delta side ms (name h)")
    case None
    with Cons.prems have "matchup_loop side mk heroData ms hs acc = Inr res" by simp
    from Cons.IH[OF this] show ?thesis .
  next
    case (Some delta)
    show ?thesis
    proof (cases "\<bar>delta\<bar> \<ge> 3")
      case True
      with Cons.prems Some obtain w where l:
        "matchup_loop side mk heroData ms hs (fst acc + delta, snd acc @ [mk (name h) delta w]) = Inr res"
        by (auto split: sum.splits)
      from Cons.IH[OF l] show ?thesis by simp
    next
      case False
      with Cons.prems Some have l:
        "matchup_loop side mk heroData ms hs (fst acc + delta, snd acc) = Inr res" by simp
      from Cons.IH[OF l] show ?thesis by simp
    qed
  qed
qed

lemma matchup_loop_tag:
  "matchup_loop side mk heroData ms hs acc = Inr res \<Longrightarrow> x \<in> set hs \<Longrightarrow>
   matchup_delta side ms (name x) = Some d \<Longrightarrow> \<bar>d\<bar> \<ge> 3 \<Longrightarrow>
   \<exists>w. mk (name x) d w \<in> set (snd res)"
proof (induction hs arbitrary: acc)
  case Nil
  then show ?case by simp
next
  case (Cons h hs)
  show ?case
  proof (cases "x = h")
    case True
    with Cons.prems obtain w where l:
      "matchup_loop side mk heroData ms hs (fst acc + d, snd acc @ [mk (name h) d w]) = Inr res"
      by (auto split: sum.splits)
    from matchup_loop_keeps[OF l] True show ?thesis by auto
  next
    case False
    with Cons.prems have mem: "x \<in> set hs" by simp
    from Cons.prems(1) obtain acc' where "matchup_loop side mk heroData ms hs acc' = Inr res"
      by (auto split: option.splits if_splits sum.splits)
    from Cons.IH[OF this mem Cons.prems(3,4)] show ?thesis .
  qed
qed

lemma matchup_part_tags:
  assumes "matchup_part side mk heroData pks = Inr res"
    and "\<And>n d w. tag_type (mk n d w) \<in> tag_kinds"
  shows "(\<forall>tg \<in> set (snd res). tag_type tg \<in> tag_kinds) \<and>
         (\<forall>x \<in> set pks. \<bar>side_delta side heroData (name x)\<bar> \<ge> 3 \<longrightarrow>
             (\<exists>w. mk (name x) (side_delta side heroData (name x)) w \<in> set (snd res)))"
proof (cases "pks \<noteq> [] \<and> matchups heroData \<noteq> None")
  case False
  then have "res = (0, [])" using assms by (auto simp: matchup_part_def)
  moreover have "side_delta side heroData n = 0" if "pks \<noteq> []" for n
    using False that by (auto simp: side_delta_def)
  ultimately show ?thesis by (cases "pks = []") auto
next
  case True
  then obtain ms where ms: "matchups heroData = Some ms" by auto
  with True assms have l: "matchup_loop side mk heroData ms pks (0, []) = Inr res"
    by (simp add: matchup_part_def)
  have k: "\<forall>tg \<in> set (snd res). tag_type tg \<in> tag_kinds"
    by (rule matchup_loop_kinds[OF assms(2) l]) simp
  have "\<exists>w. mk (name x) (side_delta side heroData (name x)) w \<in> set (snd res)"
    if "x \<in> set pks" "\<bar>side_delta side heroData (name x)\<bar> \<ge> 3" for x
  proof -
    from that(2) ms obtain d where d: "matchup_delta side ms (name x) = Some d"
      "side_delta side heroData (name x) = d"
      by (cases "matchup_delta side ms (name x)") (auto simp: side_delta_def)
    from matchup_loop_tag[OF l that(1) d(1)] that(2) d(2) show ?thesis by simp
  qed
  with k show ?thesis by blast
qed

lemma nonzero_delta_bucket:
  assumes "getPlayerHeroWinRateDelta p h \<noteq> 0"
  shows "\<exists>pl pd. p = Some pl \<and> pdata pl = Some pd \<and>
          (\<exists>gt \<in> set gameTypes. \<exists>b hs. pd gt = Some b \<and> b h = Some hs \<and>
              games_or0 hs \<ge> 25 \<and> or50 (hs_win_rate hs) \<noteq> 50)"
proof -
  from assms obtain pl pd where p: "p = Some pl" "pdata pl = Some pd"
    by (auto simp: getPlayerHeroWinRateDelta_def split: option.splits)
  let ?P = "\<lambda>acc :: rat \<times> nat. fst acc = 0 \<or>
      (\<exists>gt \<in> set gameTypes. \<exists>b hs. pd gt = Some b \<and> b h = Some hs \<and>
              games_or0 hs \<ge> 25 \<and> or50 (hs_win_rate hs) \<noteq> 50)"
  have "?P (foldl (bucket_step pd h) (0, 0) gameTypes)"
  proof (rule foldl_inv[where P = ?P])
    show "?P (0, 0)" by simp
  next
    fix b :: "rat \<times> nat" and x
    assume b: "?P b" and x: "x \<in> set gameTypes"
    show "?P (bucket_step pd h b x)"
    proof (cases "bucket_step pd h b x = b")
      case True
      with b show ?thesis by simp
    next
      case False
      then obtain bk hs where hit: "pd x = Some bk" "bk h = Some hs" "games_or0 hs \<ge> 25"
        "bucket_step pd h b x = (cap5 (or50 (hs_win_rate hs) - 50), games_or0 hs)"
        by (auto simp: bucket_step_def Let_def split: option.splits if_splits)
      show ?thesis
      proof (cases "or50 (hs_win_rate hs) = 50")
        case True
        with hit(4) show ?thesis by (simp add: cap5_def)
      next
        case False
        with hit x show ?thesis by blast
      qed
    qed
  qed
  with assms p show ?thesis by (auto simp: getPlayerHeroWinRateDelta_def)
qed

lemma tag_bucket_step_mono:
  "\<bar>snd acc - 50\<bar> \<le> \<bar>snd (tag_bucket_step pl pd h acc gt) - 50\<bar>"
  by (auto simp: tag_bucket_step_def Let_def split: option.splits)

lemma tag_bucket_step_hit:
  assumes "pd gt = Some b" "b h = Some hs" "games_or0 hs \<ge> 25"
  shows "\<bar>or50 (hs_win_rate hs) - 50\<bar> \<le> \<bar>snd (tag_bucket_step pl pd h acc gt) - 50\<bar>"
  using assms by (auto simp: tag_bucket_step_def Let_def)

lemma tag_bucket_step_named:
  "(fst acc = None \<longrightarrow> snd acc = 50) \<Longrightarrow>
   (fst (tag_bucket_step pl pd h acc gt) = None \<longrightarrow> snd (tag_bucket_step pl pd h acc gt) = 50)"
  by (auto simp: tag_bucket_step_def Let_def split: option.splits)

lemma tag_player_step_mono:
  "\<bar>snd acc - 50\<bar> \<le> \<bar>snd (tag_player_step asg pks h acc ip) - 50\<bar>"
proof -
  have "\<bar>snd acc - 50\<bar> \<le> \<bar>snd (foldl (tag_bucket_step pl pd h) acc gameTypes) - 50\<bar>" for pl pd
    by (rule foldl_mono[where g = "\<lambda>a. \<bar>snd a - 50\<bar>"]) (rule tag_bucket_step_mono)
  then show ?thesis by (auto simp: tag_player_step_def split: option.splits)
qed

lemma tag_player_step_named:
  assumes "fst acc = None \<longrightarrow> snd acc = 50"
  shows "fst (tag_player_step asg pks h acc ip) = None \<longrightarrow> snd (tag_player_step asg pks h acc ip) = 50"
proof -
  have "fst (foldl (tag_bucket_step pl pd h) acc gameTypes) = None \<longrightarrow>
        snd (foldl (tag_bucket_step pl pd h) acc gameTypes) = 50" for pl pd
    by (rule foldl_inv[where P = "\<lambda>a. fst a = None \<longrightarrow> snd a = 50"])
       (use assms tag_bucket_step_named in auto)
  then show ?thesis using assms by (auto simp: tag_player_step_def split: option.splits)
qed

lemma tag_player_step_hit:
  assumes "pdata pl = Some pd" "\<not> isAssignedToHero asg pks i" "gt \<in> set gameTypes"
    "pd gt = Some b" "b h = Some hs" "games_or0 hs \<ge> 25"
  shows "\<bar>or50 (hs_win_rate hs) - 50\<bar> \<le> \<bar>snd (tag_player_step asg pks h acc (i, Some pl)) - 50\<bar>"
proof -
  have "\<bar>or50 (hs_win_rate hs) - 50\<bar> \<le> \<bar>snd (foldl (tag_bucket_step pl pd h) acc gameTypes) - 50\<bar>"
    by (rule foldl_hit[where g = "\<lambda>a. \<bar>snd a - 50\<bar>" and x = gt])
       (use assms tag_bucket_step_mono tag_bucket_step_hit in auto)
  then show ?thesis using assms by (simp add: tag_player_step_def)
qed

lemma find_best_player_found:
  assumes "getPlayerWinRateDelta m h t (assignments (draft m t)) \<noteq> 0"
  shows "\<exists>nm w. find_best_player m h t = (Some nm, w)"
proof -
  let ?asg = "assignments (draft m t)" and ?pks = "picks (draft m t)" and ?ps = "playerStats m t"
  from getPlayerWinRateDelta_mem[of m h t ?asg] assms obtain p where
    p: "p \<in> set (available_players ?asg ?pks ?ps)" "getPlayerHeroWinRateDelta p h \<noteq> 0"
    by auto
  from p(1) obtain i where i: "i < length ?ps" "?ps ! i = p" "\<not> isAssignedToHero ?asg ?pks i"
    by (auto simp: available_players_iff)
  from nonzero_delta_bucket[OF p(2)] obtain pl pd gt b hs where
    b: "p = Some pl" "pdata pl = Some pd" "gt \<in> set gameTypes" "pd gt = Some b" "b h = Some hs"
       "games_or0 hs \<ge> 25" "or50 (hs_win_rate hs) \<noteq> 50" by blast
  have mem: "(i, Some pl) \<in> set (enumerate 0 ?ps)"
    using i b(1) by (auto simp: in_set_enumerate_eq)
  have "\<bar>or50 (hs_win_rate hs) - 50\<bar> \<le> \<bar>snd (find_best_player m h t) - 50\<bar>"
    unfolding find_best_player_def
    by (rule foldl_hit[where g = "\<lambda>a. \<bar>snd a - 50\<bar>" and x = "(i, Some pl)"])
       (use mem tag_player_step_mono tag_player_step_hit[OF b(2) i(3) b(3,4,5,6)] in auto)
  with b(7) have ne: "snd (find_best_player m h t) \<noteq> 50" by auto
  have "fst (find_best_player m h t) = None \<longrightarrow> snd (find_best_player m h t) = 50"
    unfolding find_best_player_def
    by (rule foldl_inv[where P = "\<lambda>a. fst a = None \<longrightarrow> snd a = 50"])
       (use tag_player_step_named in auto)
  with ne show ?thesis by (cases "find_best_player m h t") auto
qed

lemma player_part_tags:
  "(\<forall>tg \<in> set (snd (player_part m h t)). tag_type tg = ''player'') \<and>
   (\<bar>fst (player_part m h t)\<bar> \<ge> 1 \<longrightarrow>
      (\<exists>nm w. find_best_player m h t = (Some nm, w) \<and>
         (nm \<noteq> [] \<longrightarrow>
            \<lparr>label = PlayerWR nm w, score = fst (player_part m h t), winRate = None,
             tag_type = ''player''\<rparr> \<in> set (snd (player_part m h t)))))"
proof (cases "getPlayerWinRateDelta m h t (assignments (draft m t)) = 0")
  case True
  then show ?thesis by (simp add: player_part_def)
next
  case False
  from find_best_player_found[OF False] obtain nm w where f: "find_best_player m h t = (Some nm, w)"
    by blast
  with False show ?thesis by (auto simp: player_part_def Let_def truthy_str_def)
qed

lemma tag_bucket_step_source:
  assumes pl: "Some pl \<in> set players" "pdata pl = Some pd" and gt: "gt \<in> set gameTypes"
    and acc: "\<forall>nm. fst acc = Some nm \<longrightarrow> label_source players h nm (snd acc)"
  shows "\<forall>nm. fst (tag_bucket_step pl pd h acc gt) = Some nm \<longrightarrow>
           label_source players h nm (snd (tag_bucket_step pl pd h acc gt))"
proof (cases "tag_bucket_step pl pd h acc gt = acc")
  case True
  with acc show ?thesis by simp
next
  case False
  then obtain b hs where hit: "pd gt = Some b" "b h = Some hs" "games_or0 hs \<ge> 25"
    "tag_bucket_step pl pd h acc gt = (Some (display_name pl), or50 (hs_win_rate hs))"
    by (auto simp: tag_bucket_step_def display_name_def Let_def split: option.splits if_splits)
  from pl gt hit(1,2,3) have "label_source players h (display_name pl) (or50 (hs_win_rate hs))"
    unfolding label_source_def by blast
  with hit(4) show ?thesis by simp
qed

lemma tag_player_step_source:
  assumes ip: "ip \<in> set (enumerate 0 players)"
    and acc: "\<forall>nm. fst acc = Some nm \<longrightarrow> label_source players h nm (snd acc)"
  shows "\<forall>nm. fst (tag_player_step asg pks h acc ip) = Some nm \<longrightarrow>
           label_source players h nm (snd (tag_player_step asg pks h acc ip))"
proof (cases "tag_player_step asg pks h acc ip = acc")
  case True
  with acc show ?thesis by simp
next
  case False
  then obtain pl pd where p: "snd ip = Some pl" "pdata pl = Some pd"
    "tag_player_step asg pks h acc ip = foldl (tag_bucket_step pl pd h) acc gameTypes"
    by (auto simp: tag_player_step_def split: option.splits if_splits)
  obtain i where i: "ip = (i, Some pl)" using p(1) by (cases ip) auto
  from ip have "i < length players \<and> players ! i = Some pl"
    unfolding i by (simp add: in_set_enumerate_eq)
  then have mem: "Some pl \<in> set players" by (metis nth_mem)
  have "\<forall>nm. fst (foldl (tag_bucket_step pl pd h) acc gameTypes) = Some nm \<longrightarrow>
          label_source players h nm (snd (foldl (tag_bucket_step pl pd h) acc gameTypes))"
    by (rule foldl_inv[where P = "\<lambda>a. \<forall>nm. fst a = Some nm \<longrightarrow> label_source players h nm (snd a)"])
       (use acc tag_bucket_step_source[OF mem p(2)] in auto)
  with p(3) show ?thesis by simp
qed

lemma find_best_player_source:
  assumes "find_best_player m h t = (Some nm, w)"
  shows "label_source (playerStats m t) h nm w"
proof -
  have "\<forall>nm. fst (find_best_player m h t) = Some nm \<longrightarrow>
          label_source (playerStats m t) h nm (snd (find_best_player m h t))"
    unfolding find_best_player_def
    by (rule foldl_inv[where P = "\<lambda>a. \<forall>nm. fst a = Some nm \<longrightarrow>
                                     label_source (playerStats m t) h nm (snd a)"])
       (use tag_player_step_source in auto)
  with assms show ?thesis by simp
qed

lemma label_source_named:
  assumes "named_players players" and "label_source players h nm w"
  shows "nm \<noteq> []"
proof -
  from assms(2) obtain pl where "Some pl \<in> set players" "nm = display_name pl"
    unfolding label_source_def by blast
  with assms(1) show ?thesis by (auto simp: named_players_def list_all_iff)
qed

lemma player_part_named_tag:
  assumes "named_players (playerStats m t)" and "\<bar>fst (player_part m h t)\<bar> \<ge> 1"
  shows "\<exists>nm w. label_source (playerStats m t) h nm w \<and>
           \<lparr>label = PlayerWR nm w, score = fst (player_part m h t), winRate = None,
            tag_type = ''player''\<rparr> \<in> set (snd (player_part m h t))"
proof -
  from player_part_tags[of m h t] assms(2) obtain nm w where
    f: "find_best_player m h t = (Some nm, w)" and
    i: "nm \<noteq> [] \<longrightarrow> \<lparr>label = PlayerWR nm w, score = fst (player_part m h t), winRate = None,
             tag_type = ''player''\<rparr> \<in> set (snd (player_part m h t))"
    by blast
  from find_best_player_source[OF f] have s: "label_source (playerStats m t) h nm w" .
  from label_source_named[OF assms(1) s] i s show ?thesis by blast
qed

text \<open>
  Claim C8, amended. For a hero with a catalog record whose scoring returns: every tag is a
  map, counter, weakness, synergy, antisynergy or player tag, so none is pushed for the global
  component; a map tag naming the selected map and carrying the map delta is pushed when that
  delta has magnitude 3 or more; a tag naming the enemy (the ally) and carrying the delta of
  that matchup is pushed for each picked enemy (ally) whose own recorded delta has magnitude
  3 or more; and, on a side whose players all have a non-empty display name, a player tag
  carrying the player delta is pushed when that delta has magnitude 1 or more, labelled with
  the display name and a recorded win rate of a player of that side who has at least 25 games
  on the hero.
\<close>

theorem tags_per_signal:
  assumes "calculateHeroScore m h t = Inr r" and "heroesData m h = Some heroData"
  shows
   "(\<forall>tg \<in> set (tags r). tag_type tg \<in> tag_kinds) \<and>
    (\<forall>d. component r ''map'' = Some d \<and> \<bar>d\<bar> \<ge> 3 \<longrightarrow>
        (\<exists>e \<in> set (maps_list m). Some (map_slug e) = selectedMap m \<and>
           (\<exists>tg \<in> set (tags r). tag_type tg = ''map'' \<and> score tg = d \<and>
               label tg = (if d > 0 then GoodOn (map_name e) else WeakOn (map_name e))))) \<and>
    (\<forall>e \<in> set (getPickedHeroes m (enemyTeam t)). \<bar>side_delta enemy heroData (name e)\<bar> \<ge> 3 \<longrightarrow>
        (\<exists>tg \<in> set (tags r). score tg = side_delta enemy heroData (name e) \<and>
            label tg = (if side_delta enemy heroData (name e) > 0 then Counters (name e)
                        else CounteredBy (name e)))) \<and>
    (\<forall>a \<in> set (getPickedHeroes m t). \<bar>side_delta ally heroData (name a)\<bar> \<ge> 3 \<longrightarrow>
        (\<exists>tg \<in> set (tags r). score tg = side_delta ally heroData (name a) \<and>
            label tg = (if side_delta ally heroData (name a) > 0 then SynergyWith (name a)
                        else AntiSynergyWith (name a)))) \<and>
    (\<forall>d. component r ''playerDelta'' = Some d \<and> \<bar>d\<bar> \<ge> 1 \<and> named_players (playerStats m t) \<longrightarrow>
        (\<exists>tg \<in> set (tags r). tag_type tg = ''player'' \<and> score tg = d \<and>
            (\<exists>nm w. label tg = PlayerWR nm w \<and> label_source (playerStats m t) h nm w)))"
proof -
  from score_decompose[OF assms] obtain mapD mapTags vsEnemy enemyTags withAllies allyTags where
    mp: "map_part m heroData = Inr (mapD, mapTags)" and
    en: "matchup_part enemy enemy_tag heroData (getPickedHeroes m (enemyTeam t)) = Inr (vsEnemy, enemyTags)" and
    al: "matchup_part ally ally_tag heroData (getPickedHeroes m t) = Inr (withAllies, allyTags)" and
    bd: "breakdown r = [(''global'', global_part heroData), (''map'', mapD), (''vsEnemy'', vsEnemy),
                          (''withAllies'', withAllies), (''playerDelta'', fst (player_part m h t))]" and
    tg: "tags r = mapTags @ enemyTags @ allyTags @ snd (player_part m h t)"
    by blast
  note mt = map_part_tags[OF mp]
  note et = matchup_part_tags[OF en enemy_tag_kind, simplified]
  note at = matchup_part_tags[OF al ally_tag_kind, simplified]
  note pt = player_part_tags[of m h t]
  have c1: "\<forall>tg \<in> set (tags r). tag_type tg \<in> tag_kinds"
    using mt et at pt unfolding tg by (auto simp: tag_kinds_def)
  have c2: "\<exists>e \<in> set (maps_list m). Some (map_slug e) = selectedMap m \<and>
           (\<exists>tg \<in> set (tags r). tag_type tg = ''map'' \<and> score tg = d \<and>
               label tg = (if d > 0 then GoodOn (map_name e) else WeakOn (map_name e)))"
    if "component r ''map'' = Some d" "\<bar>d\<bar> \<ge> 3" for d
  proof -
    from that(1) bd have "d = mapD" by (simp add: component_def)
    with mt that(2) obtain e tg' where e: "e \<in> set (maps_list m)" "Some (map_slug e) = selectedMap m"
      and t': "tg' \<in> set mapTags" "tag_type tg' = ''map''" "score tg' = d"
        "label tg' = (if d > 0 then GoodOn (map_name e) else WeakOn (map_name e))"
      by blast
    from t'(1) have "tg' \<in> set (tags r)" unfolding tg by simp
    with e t'(2,3,4) show ?thesis by blast
  qed
  have c3: "\<exists>tg \<in> set (tags r). score tg = side_delta enemy heroData (name e) \<and>
            label tg = (if side_delta enemy heroData (name e) > 0 then Counters (name e)
                        else CounteredBy (name e))"
    if "e \<in> set (getPickedHeroes m (enemyTeam t))" "\<bar>side_delta enemy heroData (name e)\<bar> \<ge> 3" for e
  proof -
    from et that obtain w where
      "enemy_tag (name e) (side_delta enemy heroData (name e)) w \<in> set enemyTags" by blast
    then have "enemy_tag (name e) (side_delta enemy heroData (name e)) w \<in> set (tags r)"
      unfolding tg by simp
    then show ?thesis by (rule bexI[rotated]) (simp add: enemy_tag_def)
  qed
  have c4: "\<exists>tg \<in> set (tags r). score tg = side_delta ally heroData (name a) \<and>
            label tg = (if side_delta ally heroData (name a) > 0 then SynergyWith (name a)
                        else AntiSynergyWith (name a))"
    if "a \<in> set (getPickedHeroes m t)" "\<bar>side_delta ally heroData (name a)\<bar> \<ge> 3" for a
  proof -
    from at that obtain w where
      "ally_tag (name a) (side_delta ally heroData (name a)) w \<in> set allyTags" by blast
    then have "ally_tag (name a) (side_delta ally heroData (name a)) w \<in> set (tags r)"
      unfolding tg by simp
    then show ?thesis by (rule bexI[rotated]) (simp add: ally_tag_def)
  qed
  have c5: "\<exists>tg \<in> set (tags r). tag_type tg = ''player'' \<and> score tg = d \<and>
            (\<exists>nm w. label tg = PlayerWR nm w \<and> label_source (playerStats m t) h nm w)"
    if "component r ''playerDelta'' = Some d" "\<bar>d\<bar> \<ge> 1" "named_players (playerStats m t)" for d
  proof -
    from that(1) bd have d: "d = fst (player_part m h t)" by (simp add: component_def)
    with player_part_named_tag[OF that(3), of h] that(2) obtain nm w where
      s: "label_source (playerStats m t) h nm w" and
      i: "\<lparr>label = PlayerWR nm w, score = d, winRate = None, tag_type = ''player''\<rparr>
            \<in> set (snd (player_part m h t))" by auto
    from i have "\<lparr>label = PlayerWR nm w, score = d, winRate = None, tag_type = ''player''\<rparr>
            \<in> set (tags r)" unfolding tg by simp
    then show ?thesis by (rule bexI[rotated]) (use s in auto)
  qed
  from c1 c2 c3 c4 c5 show ?thesis by blast
qed

lemma demo_zeratul_data: "heroesData demo_manager ''Zeratul'' = Some zeratul_data"
  by (simp add: demo_manager_def)

lemma demo_named: "named_players (playerStats demo_manager Blue)"
  by code_simp

lemma demo_zeratul_signals:
  "component demo_zeratul_score ''map'' = Some 4 \<and>
   mk_hero ''Valla'' ''valla'' \<in> set (getPickedHeroes demo_manager (enemyTeam Blue)) \<and>
   side_delta enemy zeratul_data ''Valla'' = 3 \<and>
   mk_hero ''Muradin'' ''muradin'' \<in> set (getPickedHeroes demo_manager Blue) \<and>
   side_delta ally zeratul_data ''Muradin'' = - 3 \<and>
   component demo_zeratul_score ''playerDelta'' = Some 3"
  by code_simp

text \<open>
  In the sample draft Zeratul is good on the selected map (4), counters the picked Valla (3),
  has an anti-synergy with the picked Muradin (-3), and the available Blue player brings a
  player delta of 3: the score carries one tag for each.
\<close>

theorem tags_per_signal_witness:
  "calculateHeroScore demo_manager ''Zeratul'' Blue = Inr demo_zeratul_score \<and>
   heroesData demo_manager ''Zeratul'' = Some zeratul_data \<and>
   list_all (\<lambda>tg. tag_type tg \<in> tag_kinds) (tags demo_zeratul_score) \<and>
   component demo_zeratul_score ''map'' = Some 4 \<and>
   (\<exists>e \<in> set (maps_list demo_manager). Some (map_slug e) = selectedMap demo_manager \<and>
      (\<exists>tg \<in> set (tags demo_zeratul_score). tag_type tg = ''map'' \<and> score tg = 4 \<and>
          label tg = GoodOn (map_name e))) \<and>
   mk_hero ''Valla'' ''valla'' \<in> set (getPickedHeroes demo_manager (enemyTeam Blue)) \<and>
   side_delta enemy zeratul_data ''Valla'' = 3 \<and>
   (\<exists>tg \<in> set (tags demo_zeratul_score). score tg = 3 \<and> label tg = Counters ''Valla'') \<and>
   mk_hero ''Muradin'' ''muradin'' \<in> set (getPickedHeroes demo_manager Blue) \<and>
   side_delta ally zeratul_data ''Muradin'' = - 3 \<and>
   (\<exists>tg \<in> set (tags demo_zeratul_score). score tg = - 3 \<and> label tg = AntiSynergyWith ''Muradin'') \<and>
   component demo_zeratul_score ''playerDelta'' = Some 3 \<and>
   named_players (playerStats demo_manager Blue) \<and>
   (\<exists>tg \<in> set (tags demo_zeratul_score). tag_type tg = ''player'' \<and> score tg = 3 \<and>
       (\<exists>nm w. label tg = PlayerWR nm w \<and>
                label_source (playerStats demo_manager Blue) ''Zeratul'' nm w))"
proof -
  note t = tags_per_signal[OF demo_zeratul demo_zeratul_data]
  note s = demo_zeratul_signals
  from t have kinds: "list_all (\<lambda>tg. tag_type tg \<in> tag_kinds) (tags demo_zeratul_score)"
    by (simp add: list_all_iff)
  from t s have mp: "\<exists>e \<in> set (maps_list demo_manager). Some (map_slug e) = selectedMap demo_manager \<and>
      (\<exists>tg \<in> set (tags demo_zeratul_score). tag_type tg = ''map'' \<and> score tg = 4 \<and>
          label tg = GoodOn (map_name e))"
    by (elim conjE allE[of _ "4::rat"]) simp
  from s have v: "mk_hero ''Valla'' ''valla'' \<in> set (getPickedHeroes demo_manager (enemyTeam Blue))"
    and vd: "side_delta enemy zeratul_data ''Valla'' = 3"
    and mu: "mk_hero ''Muradin'' ''muradin'' \<in> set (getPickedHeroes demo_manager Blue)"
    and md: "side_delta ally zeratul_data ''Muradin'' = - 3" by blast+
  from t have "\<forall>e \<in> set (getPickedHeroes demo_manager (enemyTeam Blue)).
      \<bar>side_delta enemy zeratul_data (name e)\<bar> \<ge> 3 \<longrightarrow>
        (\<exists>tg \<in> set (tags demo_zeratul_score). score tg = side_delta enemy zeratul_data (name e) \<and>
            label tg = (if side_delta enemy zeratul_data (name e) > 0 then Counters (name e)
                        else CounteredBy (name e)))" by blast
  from this[rule_format, OF v] vd
  have en: "\<exists>tg \<in> set (tags demo_zeratul_score). score tg = 3 \<and> label tg = Counters ''Valla''"
    by (simp add: mk_hero_def)
  from t have "\<forall>a \<in> set (getPickedHeroes demo_manager Blue).
      \<bar>side_delta ally zeratul_data (name a)\<bar> \<ge> 3 \<longrightarrow>
        (\<exists>tg \<in> set (tags demo_zeratul_score). score tg = side_delta ally zeratul_data (name a) \<and>
            label tg = (if side_delta ally zeratul_data (name a) > 0 then SynergyWith (name a)
                        else AntiSynergyWith (name a)))" by blast
  from this[rule_format, OF mu] md
  have al: "\<exists>tg \<in> set (tags demo_zeratul_score). score tg = - 3 \<and>
      label tg = AntiSynergyWith ''Muradin''"
    by (simp add: mk_hero_def)
  from t have "\<forall>d. component demo_zeratul_score ''playerDelta'' = Some d \<and> \<bar>d\<bar> \<ge> 1 \<and>
        named_players (playerStats demo_manager Blue) \<longrightarrow>
        (\<exists>tg \<in> set (tags demo_zeratul_score). tag_type tg = ''player'' \<and> score tg = d \<and>
            (\<exists>nm w. label tg = PlayerWR nm w \<and>
                     label_source (playerStats demo_manager Blue) ''Zeratul'' nm w))" by blast
  from this[rule_format, of 3] s demo_named
  have pl: "\<exists>tg \<in> set (tags demo_zeratul_score). tag_type tg = ''player'' \<and> score tg = 3 \<and>
       (\<exists>nm w. label tg = PlayerWR nm w \<and>
                label_source (playerStats demo_manager Blue) ''Zeratul'' nm w)"
    by simp
  from demo_zeratul demo_zeratul_data kinds mp en al pl s demo_named show ?thesis by blast
qed

text \<open>
  Four scores that the original wording of C8 gets wrong. In the sample draft Jaina's only
  signal is a global delta of 4, and the score has no tag. In the draft without map the
  \<open>vsEnemy\<close> component of Zeratul is 4, the sum of two matchups of 2 each, and the score has
  no tag. For Red the player delta of Abathur is 5, from a player whose display name is
  empty, and the score has no tag. For Blue the player delta of Tracer is -3, the delta of
  the second player, while the player tag names the first player, whose own delta is 2.
\<close>

theorem tags_not_per_component:
  "calculateHeroScore demo_manager ''Jaina'' Blue =
     Inr \<lparr>total = 4,
          breakdown = [(''global'', 4), (''map'', 0), (''vsEnemy'', 0), (''withAllies'', 0),
                       (''playerDelta'', 0)],
          tags = [], expectedWinRate = 54, baseWinRate = Some 54\<rparr> \<and>
   calculateHeroScore quiet_manager ''Zeratul'' Blue =
     Inr \<lparr>total = 4,
          breakdown = [(''global'', 0), (''map'', 0), (''vsEnemy'', 4), (''withAllies'', 0),
                       (''playerDelta'', 0)],
          tags = [], expectedWinRate = 54, baseWinRate = Some 50\<rparr> \<and>
   map (\<lambda>p. (display_name (the p), getPlayerHeroWinRateDelta p ''Abathur''))
     (playerStats quiet_manager Red) = [([], 5)] \<and>
   calculateHeroScore quiet_manager ''Abathur'' Red =
     Inr \<lparr>total = 5,
          breakdown = [(''global'', 0), (''map'', 0), (''vsEnemy'', 0), (''withAllies'', 0),
                       (''playerDelta'', 5)],
          tags = [], expectedWinRate = 55, baseWinRate = Some 50\<rparr> \<and>
   map (\<lambda>p. (display_name (the p), getPlayerHeroWinRateDelta p ''Tracer''))
     (playerStats quiet_manager Blue) = [(''aaa'', 2), (''bbb'', - 3)] \<and>
   calculateHeroScore quiet_manager ''Tracer'' Blue =
     Inr \<lparr>total = - 3,
          breakdown = [(''global'', 0), (''map'', 0), (''vsEnemy'', 0), (''withAllies'', 0),
                       (''playerDelta'', - 3)],
          tags = [\<lparr>label = PlayerWR ''aaa'' 90, score = - 3, winRate = None, tag_type = ''player''\<rparr>],
          expectedWinRate = 47, baseWinRate = Some 50\<rparr>"
  by code_simp

section \<open>Properties of the assignment resolver\<close>

lemma player_of_mem: "p \<in> set (map the (filter (\<lambda>x. x \<noteq> None) xs)) \<longleftrightarrow> Some p \<in> set xs"
  by (induction xs) auto

lemma no_shared_player_Cons:
  "no_shared_player (x # xs) \<longleftrightarrow>
   (case x of None \<Rightarrow> no_shared_player xs | Some p \<Rightarrow> Some p \<notin> set xs \<and> no_shared_player xs)"
proof (cases x)
  case None
  then show ?thesis by (simp add: no_shared_player_def)
next
  case (Some p)
  have "no_shared_player (x # xs) \<longleftrightarrow>
        p \<notin> set (map the (filter (\<lambda>x. x \<noteq> None) xs)) \<and> no_shared_player xs"
    using Some unfolding no_shared_player_def by (simp del: set_map set_filter)
  then show ?thesis using Some by (simp only: player_of_mem option.case)
qed

lemma no_shared_player_iff:
  "no_shared_player a \<longleftrightarrow>
   (\<forall>i < length a. \<forall>j < length a. i \<noteq> j \<and> a ! i \<noteq> None \<longrightarrow> a ! i \<noteq> a ! j)"
proof (induction a)
  case Nil
  show ?case by (simp add: no_shared_player_def)
next
  case (Cons x xs)
  let ?R = "\<lambda>a::nat option list. \<forall>i < length a. \<forall>j < length a. i \<noteq> j \<and> a ! i \<noteq> None \<longrightarrow> a ! i \<noteq> a ! j"
  have "?R (x # xs) \<longleftrightarrow> (x \<noteq> None \<longrightarrow> x \<notin> set xs) \<and> ?R xs"
  proof
    assume r: "?R (x # xs)"
    have "x \<notin> set xs" if "x \<noteq> None"
    proof
      assume "x \<in> set xs"
      then obtain j where "j < length xs" "xs ! j = x" by (auto simp: in_set_conv_nth)
      with r[rule_format, of 0 "Suc j"] that show False by auto
    qed
    moreover have "?R xs"
    proof (intro allI impI)
      fix i j assume "i < length xs" "j < length xs" "i \<noteq> j \<and> xs ! i \<noteq> None"
      with r[rule_format, of "Suc i" "Suc j"] show "xs ! i \<noteq> xs ! j" by auto
    qed
    ultimately show "(x \<noteq> None \<longrightarrow> x \<notin> set xs) \<and> ?R xs" by blast
  next
    assume a: "(x \<noteq> None \<longrightarrow> x \<notin> set xs) \<and> ?R xs"
    show "?R (x # xs)"
    proof (intro allI impI)
      fix i j assume ij: "i < length (x # xs)" "j < length (x # xs)" "i \<noteq> j \<and> (x # xs) ! i \<noteq> None"
      show "(x # xs) ! i \<noteq> (x # xs) ! j"
      proof (cases i)
        case 0
        with ij obtain j' where "j = Suc j'" "j' < length xs" by (cases j) auto
        with 0 ij a show ?thesis by (auto simp: in_set_conv_nth)
      next
        case (Suc i')
        show ?thesis
        proof (cases j)
          case 0
          with Suc ij a show ?thesis by (auto simp: in_set_conv_nth)
        next
          case (Suc j')
          with \<open>i = Suc i'\<close> ij a show ?thesis by auto
        qed
      qed
    qed
  qed
  with Cons.IH show ?case
    by (auto simp: no_shared_player_Cons split: option.splits)
qed

lemma alreadyAssigned_iff: "alreadyAssigned a p \<longleftrightarrow> Some p \<in> set a"
  by (auto simp: alreadyAssigned_def list_ex_iff)

lemma firstAvailable_Some:
  "firstAvailable a n = Some i \<Longrightarrow> i < n \<and> Some i \<notin> set a"
  by (auto simp: firstAvailable_def find_Some_iff alreadyAssigned_iff)

lemma firstAvailable_None:
  "firstAvailable a n = None \<Longrightarrow> i < n \<Longrightarrow> Some i \<in> set a"
  by (auto simp: firstAvailable_def find_None_iff alreadyAssigned_iff)

text \<open>
  The inner loop of the second pass returns a player that no slot references yet, whenever it
  returns one.
\<close>

lemma best_loop_fresh:
  "foldl (best_step a h) (None, - 999) ips = (bp, bd) \<Longrightarrow>
   (bd > - 999 \<longrightarrow> (\<exists>i. bp = Some i \<and> Some i \<notin> set a))"
proof -
  let ?P = "\<lambda>acc :: nat option \<times> rat.
      (snd acc > - 999 \<longrightarrow> (\<exists>i. fst acc = Some i \<and> Some i \<notin> set a))"
  have "?P (foldl (best_step a h) (None, - 999) ips)"
    by (rule foldl_inv[where P = ?P])
       (auto simp: best_step_def Let_def alreadyAssigned_iff split: if_splits)
  then show "foldl (best_step a h) (None, - 999) ips = (bp, bd) \<Longrightarrow>
     (bd > - 999 \<longrightarrow> (\<exists>i. bp = Some i \<and> Some i \<notin> set a))" by simp
qed

text \<open>What one step of the second and of the third pass can write.\<close>

lemma pass2_step_cases:
  "pass2_step vps a sh = a \<or>
   (\<exists>q. snd sh \<noteq> None \<and> is_null_at a (fst sh) \<and> Some q \<notin> set a \<and>
        pass2_step vps a sh = a[fst sh := Some q])"
proof (cases "snd sh")
  case None
  then show ?thesis by (simp add: pass2_step_def)
next
  case (Some h)
  show ?thesis
  proof (cases "is_null_at a (fst sh)")
    case False
    with Some show ?thesis by (simp add: pass2_step_def)
  next
    case True
    obtain bp bd where b: "foldl (best_step a (name h)) (None, - 999) (enumerate 0 vps) = (bp, bd)"
      by (cases "foldl (best_step a (name h)) (None, - 999) (enumerate 0 vps)") auto
    show ?thesis
    proof (cases "bd > - 999")
      case bt: True
      with best_loop_fresh[OF b] obtain i where "bp = Some i" "Some i \<notin> set a" by auto
      with Some True b bt show ?thesis by (auto simp: pass2_step_def)
    next
      case bf: False
      show ?thesis
      proof (cases "firstAvailable a (length vps)")
        case None
        with Some True b bf show ?thesis by (simp add: pass2_step_def)
      next
        case (Some i)
        from firstAvailable_Some[OF this] \<open>snd sh = Some h\<close> True b bf Some show ?thesis
          by (auto simp: pass2_step_def)
      qed
    qed
  qed
qed

lemma pass3_step_cases:
  "pass3_step n a s = a \<or>
   (is_null_at a s \<and> s < n \<and>
     ((\<exists>q. firstAvailable a n = Some q \<and> Some q \<notin> set a \<and> pass3_step n a s = a[s := Some q]) \<or>
      (firstAvailable a n = None \<and> pass3_step n a s = a[s := Some s])))"
  using firstAvailable_Some[of a n]
  by (cases "firstAvailable a n") (auto simp: pass3_step_def)

lemma pass1_step_length [simp]: "length (pass1_step pks cur man a s) = length a"
  by (simp add: pass1_step_def)

lemma pass2_step_length [simp]: "length (pass2_step vps a sh) = length a"
  using pass2_step_cases[of vps a sh] by auto

lemma pass3_step_length [simp]: "length (pass3_step n a s) = length a"
  using pass3_step_cases[of n a s] by auto

lemma foldl_length:
  "(\<And>b x. length (f b x) = length b) \<Longrightarrow> length (foldl f a xs) = length a"
  by (induction xs arbitrary: a) auto

text \<open>The first pass in closed form.\<close>

lemma pass1_nth:
  assumes "length a = 5" and "set xs \<subseteq> {..<5}" and "i < 5"
  shows "foldl (pass1_step pks cur man) a xs ! i =
         (if i \<in> set xs \<and> manual_at man i \<and> pick_at pks i \<noteq> None then asg_at cur i else a ! i)"
  using assms
proof (induction xs arbitrary: a)
  case Nil
  then show ?case by simp
next
  case (Cons x xs)
  have len: "length (pass1_step pks cur man a x) = 5" using Cons.prems by simp
  have sub: "set xs \<subseteq> {..<5}" using Cons.prems by auto
  have x: "x < 5" using Cons.prems by auto
  show ?case
    using Cons.IH[OF len sub \<open>i < 5\<close>] x Cons.prems(1,3)
    by (auto simp: pass1_step_def nth_list_update)
qed

lemma pass1_length [simp]: "length (pass1 pks cur man) = 5"
  by (simp add: pass1_def foldl_length)

lemma pass1_at:
  "i < 5 \<Longrightarrow> pass1 pks cur man ! i =
     (if manual_at man i \<and> pick_at pks i \<noteq> None then asg_at cur i else None)"
  unfolding pass1_def by (subst pass1_nth) auto

text \<open>The second and the third pass write empty slots only.\<close>

lemma pass2_step_keeps: "i < length a \<Longrightarrow> a ! i \<noteq> None \<Longrightarrow> pass2_step vps a sh ! i = a ! i"
  using pass2_step_cases[of vps a sh] by (auto simp: is_null_at_def nth_list_update)

lemma pass3_step_keeps: "i < length a \<Longrightarrow> a ! i \<noteq> None \<Longrightarrow> pass3_step n a s ! i = a ! i"
  using pass3_step_cases[of n a s] by (auto simp: is_null_at_def nth_list_update)

lemma pass2_keeps:
  assumes "i < length a" "a ! i \<noteq> None"
  shows "foldl (pass2_step vps) a xs ! i = a ! i"
proof -
  have "length (foldl (pass2_step vps) a xs) = length a \<and> foldl (pass2_step vps) a xs ! i = a ! i"
    by (rule foldl_inv[where P = "\<lambda>b. length b = length a \<and> b ! i = a ! i"])
       (use assms pass2_step_keeps in auto)
  then show ?thesis by simp
qed

lemma pass3_keeps:
  assumes "i < length a" "a ! i \<noteq> None"
  shows "foldl (pass3_step n) a xs ! i = a ! i"
proof -
  have "length (foldl (pass3_step n) a xs) = length a \<and> foldl (pass3_step n) a xs ! i = a ! i"
    by (rule foldl_inv[where P = "\<lambda>b. length b = length a \<and> b ! i = a ! i"])
       (use assms pass3_step_keeps in auto)
  then show ?thesis by simp
qed

lemma resolve_eq:
  "resolve vps pks cur man =
   foldl (pass3_step (length vps)) (foldl (pass2_step vps) (pass1 pks cur man) (enumerate 0 pks)) [0..<5]"
  by (simp add: resolve_def pass1_def Let_def)

lemma resolve_length [simp]: "length (resolve vps pks cur man) = 5"
  by (simp add: resolve_eq foldl_length)

lemma resolve_keeps:
  assumes "i < 5" "pass1 pks cur man ! i \<noteq> None"
  shows "resolve vps pks cur man ! i = pass1 pks cur man ! i"
  using assms by (simp add: resolve_eq pass3_keeps pass2_keeps foldl_length)

lemma resolve_idem:
  assumes len: "length cur = 5"
    and set: "\<forall>i < 5. manual_at man i \<and> pick_at pks i \<noteq> None \<longrightarrow> cur ! i \<noteq> None"
  shows "resolve vps pks (resolve vps pks cur man) man = resolve vps pks cur man"
proof -
  have "pass1 pks (resolve vps pks cur man) man = pass1 pks cur man"
  proof (rule nth_equalityI)
    show "length (pass1 pks (resolve vps pks cur man) man) = length (pass1 pks cur man)" by simp
  next
    fix i assume "i < length (pass1 pks (resolve vps pks cur man) man)"
    then have i: "i < 5" by simp
    show "pass1 pks (resolve vps pks cur man) man ! i = pass1 pks cur man ! i"
    proof (cases "manual_at man i \<and> pick_at pks i \<noteq> None")
      case False
      with i show ?thesis by (auto simp: pass1_at)
    next
      case True
      with i set len have "pass1 pks cur man ! i = cur ! i" "cur ! i \<noteq> None"
        by (auto simp: pass1_at asg_at_def)
      with resolve_keeps[OF i, of pks cur man vps] have "resolve vps pks cur man ! i = cur ! i"
        by simp
      with True i \<open>pass1 pks cur man ! i = cur ! i\<close> show ?thesis
        by (simp add: pass1_at asg_at_def)
    qed
  qed
  then show ?thesis by (simp add: resolve_eq)
qed

lemma not_in_set_nth: "Some q \<notin> set a \<Longrightarrow> k < length a \<Longrightarrow> a ! k \<noteq> Some q"
  by (metis nth_mem)

lemma no_shared_player_update:
  assumes "s < length a" "a ! s = None" "Some q \<notin> set a" "no_shared_player a"
  shows "no_shared_player (a[s := Some q])"
  using assms not_in_set_nth[OF assms(3)]
  unfolding no_shared_player_iff
  by (auto simp: nth_list_update)

lemma shared_by_fallback_only_update:
  assumes s: "s < length a" "a ! s = None" and q: "Some q \<notin> set a \<or> q = s"
    and a: "shared_by_fallback_only a"
  shows "shared_by_fallback_only (a[s := Some q])"
  unfolding shared_by_fallback_only_def
proof (intro ballI impI)
  let ?b = "a[s := Some q]"
  fix i j
  assume "i \<in> {0..<length ?b}" "j \<in> {0..<length ?b}"
  then have ij: "i < length a" "j < length a" by simp_all
  assume h: "i \<noteq> j \<and> ?b ! i \<noteq> None \<and> ?b ! i = ?b ! j"
  have fresh: "a ! k \<noteq> Some q" if "k < length a" "q \<noteq> s" for k
    using q that not_in_set_nth[of q a k] by auto
  show "?b ! i = Some i \<or> ?b ! i = Some j"
  proof (cases "i = s")
    case True
    with h ij have "a ! j = Some q" by (auto simp: nth_list_update split: if_splits)
    with fresh[OF ij(2)] have "q = s" by auto
    with True ij show ?thesis by simp
  next
    case False
    show ?thesis
    proof (cases "j = s")
      case True
      with h ij False have "a ! i = Some q" by (auto simp: nth_list_update split: if_splits)
      with fresh[OF ij(1)] have "q = s" by auto
      with True False h ij show ?thesis by (auto simp: nth_list_update split: if_splits)
    next
      case js: False
      have bi: "?b ! i = a ! i" and bj: "?b ! j = a ! j"
        using False js by simp_all
      from h have old: "i \<noteq> j \<and> a ! i \<noteq> None \<and> a ! i = a ! j"
        unfolding bi bj .
      have mem: "i \<in> {0..<length a}" "j \<in> {0..<length a}" using ij by simp_all
      from a[unfolded shared_by_fallback_only_def, rule_format, OF mem old]
      have "a ! i = Some i \<or> a ! i = Some j" .
      then show ?thesis unfolding bi .
    qed
  qed
qed

lemma no_shared_imp_fallback_only:
  assumes "no_shared_player a"
  shows "shared_by_fallback_only a"
  unfolding shared_by_fallback_only_def
proof (intro ballI impI)
  fix i j
  assume ij: "i \<in> {0..<length a}" "j \<in> {0..<length a}"
    and h: "i \<noteq> j \<and> a ! i \<noteq> None \<and> a ! i = a ! j"
  from assms have "\<forall>i < length a. \<forall>j < length a. i \<noteq> j \<and> a ! i \<noteq> None \<longrightarrow> a ! i \<noteq> a ! j"
    by (simp only: no_shared_player_iff)
  with ij h have "a ! i \<noteq> a ! j" by auto
  with h show "a ! i = Some i \<or> a ! i = Some j" by simp
qed

text \<open>
  When only slots below \<open>n\<close> are filled and one of them is still empty, one of the \<open>n\<close>
  players is free: the fallback of the third pass is not reached.
\<close>

lemma free_player_exists:
  assumes len: "length a = 5" and pos: "\<forall>i < 5. a ! i \<noteq> None \<longrightarrow> i < n"
    and s: "s < n" "s < 5" "a ! s = None"
  shows "firstAvailable a n \<noteq> None"
proof
  assume none: "firstAvailable a n = None"
  let ?S = "{i. i < 5 \<and> i < n \<and> i \<noteq> s}"
  have fin: "finite ?S" by simp
  have "Some ` {..<n} \<subseteq> (\<lambda>i. a ! i) ` ?S"
  proof
    fix x assume "x \<in> Some ` {..<n}"
    then obtain idx where idx: "x = Some idx" "idx < n" by auto
    from firstAvailable_None[OF none idx(2)] obtain i where i: "i < 5" "a ! i = Some idx"
      using len by (auto simp: in_set_conv_nth)
    with pos s have "i < n" "i \<noteq> s" by auto
    with i idx show "x \<in> (\<lambda>i. a ! i) ` ?S" by force
  qed
  then have "card (Some ` {..<n}) \<le> card ((\<lambda>i. a ! i) ` ?S)"
    using fin by (intro card_mono) auto
  also have "\<dots> \<le> card ?S" using fin by (rule card_image_le)
  also have "?S \<subseteq> {..<n} - {s}" by auto
  then have "card ?S \<le> card ({..<n} - {s})" by (intro card_mono) auto
  also have "\<dots> = n - 1" using s(1) by simp
  finally have "card (Some ` {..<n}) \<le> n - 1" .
  moreover have "card (Some ` {..<n}) = n" by (simp add: card_image)
  ultimately show False using s(1) by simp
qed

lemma pass2_fallback_only:
  assumes "shared_by_fallback_only a"
  shows "shared_by_fallback_only (foldl (pass2_step vps) a xs)"
proof (rule foldl_inv[where P = shared_by_fallback_only])
  show "shared_by_fallback_only a" by fact
next
  fix b x assume b: "shared_by_fallback_only b"
  from pass2_step_cases[of vps b x] show "shared_by_fallback_only (pass2_step vps b x)"
  proof
    assume "pass2_step vps b x = b"
    with b show ?thesis by simp
  next
    assume "\<exists>q. snd x \<noteq> None \<and> is_null_at b (fst x) \<and> Some q \<notin> set b \<and>
        pass2_step vps b x = b[fst x := Some q]"
    then obtain q where q: "is_null_at b (fst x)" "Some q \<notin> set b"
      "pass2_step vps b x = b[fst x := Some q]" by blast
    show ?thesis unfolding q(3)
      by (rule shared_by_fallback_only_update) (use q b in \<open>auto simp: is_null_at_def\<close>)
  qed
qed

lemma pass3_fallback_only:
  assumes "shared_by_fallback_only a"
  shows "shared_by_fallback_only (foldl (pass3_step n) a xs)"
proof (rule foldl_inv[where P = shared_by_fallback_only])
  show "shared_by_fallback_only a" by fact
next
  fix b x assume b: "shared_by_fallback_only b"
  from pass3_step_cases[of n b x]
  consider "pass3_step n b x = b"
    | q where "is_null_at b x" "Some q \<notin> set b" "pass3_step n b x = b[x := Some q]"
    | "is_null_at b x" "pass3_step n b x = b[x := Some x]"
    by blast
  then show "shared_by_fallback_only (pass3_step n b x)"
  proof cases
    case 1
    with b show ?thesis by simp
  next
    case 2
    show ?thesis unfolding 2(3)
      by (rule shared_by_fallback_only_update) (use 2 b in \<open>auto simp: is_null_at_def\<close>)
  next
    case 3
    show ?thesis unfolding 3(2)
      by (rule shared_by_fallback_only_update) (use 3 b in \<open>auto simp: is_null_at_def\<close>)
  qed
qed

lemma placed_below_update:
  assumes "placed_below n a" "s < 5" "s < n" "a ! s = None" "Some q \<notin> set a"
  shows "placed_below n (a[s := Some q])"
  using assms no_shared_player_update[of s a q]
  by (auto simp: placed_below_def nth_list_update)

lemma pass2_placed_below:
  assumes a: "placed_below n a" and len: "length pks = 5"
    and low: "\<forall>i < 5. pks ! i \<noteq> None \<longrightarrow> i < n"
  shows "placed_below n (foldl (pass2_step vps) a (enumerate 0 pks))"
proof (rule foldl_inv[where P = "placed_below n"])
  show "placed_below n a" by fact
next
  fix b x assume b: "placed_below n b" and x: "x \<in> set (enumerate 0 pks)"
  from x len have x5: "fst x < 5" "snd x = pks ! fst x" by (auto simp: in_set_enumerate_eq)
  from pass2_step_cases[of vps b x] show "placed_below n (pass2_step vps b x)"
  proof
    assume "pass2_step vps b x = b"
    with b show ?thesis by simp
  next
    assume "\<exists>q. snd x \<noteq> None \<and> is_null_at b (fst x) \<and> Some q \<notin> set b \<and>
        pass2_step vps b x = b[fst x := Some q]"
    then obtain q where q: "snd x \<noteq> None" "is_null_at b (fst x)" "Some q \<notin> set b"
      "pass2_step vps b x = b[fst x := Some q]" by blast
    from q(1) x5 low have "fst x < n" by auto
    with b x5 q show ?thesis unfolding q(4)
      by (intro placed_below_update) (auto simp: is_null_at_def)
  qed
qed

lemma pass3_placed_below:
  assumes a: "placed_below n a"
  shows "placed_below n (foldl (pass3_step n) a xs)"
proof (rule foldl_inv[where P = "placed_below n"])
  show "placed_below n a" by fact
next
  fix b x assume b: "placed_below n b"
  show "placed_below n (pass3_step n b x)"
  proof (cases "is_null_at b x \<and> x < n")
    case False
    then have "pass3_step n b x = b" by (auto simp: pass3_step_def)
    with b show ?thesis by simp
  next
    case True
    with b have x: "x < 5" "b ! x = None" "x < n" by (auto simp: is_null_at_def placed_below_def)
    from b have "firstAvailable b n \<noteq> None"
      by (intro free_player_exists[of b n x]) (use x in \<open>auto simp: placed_below_def\<close>)
    then obtain q where q: "firstAvailable b n = Some q" by auto
    from firstAvailable_Some[OF q] have fresh: "Some q \<notin> set b" by simp
    have "pass3_step n b x = b[x := Some q]" using True q by (simp add: pass3_step_def)
    then show ?thesis using placed_below_update[OF b x(1) x(3) x(2) fresh] by simp
  qed
qed

lemma resolve_fallback_only:
  assumes "no_shared_player (pass1 pks cur man)"
  shows "shared_by_fallback_only (resolve vps pks cur man)"
  unfolding resolve_eq
  by (intro pass3_fallback_only pass2_fallback_only no_shared_imp_fallback_only assms)

lemma resolve_no_shared:
  assumes len: "length pks = 5"
    and man: "no_shared_player (pass1 pks cur man)"
    and low: "\<forall>i < 5. pks ! i \<noteq> None \<longrightarrow> i < length vps"
  shows "no_shared_player (resolve vps pks cur man)"
proof -
  have "placed_below (length vps) (pass1 pks cur man)"
    using man low len
    by (auto simp: placed_below_def pass1_at pick_at_def split: if_splits)
  then have "placed_below (length vps) (resolve vps pks cur man)"
    unfolding resolve_eq by (intro pass3_placed_below pass2_placed_below len low)
  then show ?thesis by (simp add: placed_below_def)
qed

text \<open>The hypothesis on the manual assignments, slot by slot.\<close>

lemma kept_manual_distinct_iff:
  assumes "wf_team_draft d"
  shows "kept_manual_distinct d \<longleftrightarrow>
         (\<forall>i < 5. \<forall>j < 5. i \<noteq> j \<and> manualAssignments d ! i \<and> picks d ! i \<noteq> None \<and>
             manualAssignments d ! j \<and> picks d ! j \<noteq> None \<and> assignments d ! i \<noteq> None
             \<longrightarrow> assignments d ! i \<noteq> assignments d ! j)"
  using assms
  unfolding kept_manual_distinct_def no_shared_player_iff
  by (auto simp: pass1_at asg_at_def manual_at_def pick_at_def wf_team_draft_def)

lemma wf_reads:
  assumes "wf_team_draft d" and "i < 5"
  shows "manual_at (manualAssignments d) i = manualAssignments d ! i"
    and "pick_at (picks d) i = picks d ! i"
  using assms by (simp_all add: wf_team_draft_def manual_at_def pick_at_def)

lemma assign_result:
  "assignments (draft (assignHeroesToPlayers m t) t) =
     (if validPlayers m t = [] then replicate 5 None
      else resolve (validPlayers m t) (picks (draft m t)) (assignments (draft m t))
             (manualAssignments (draft m t)))"
  by (simp add: assignHeroesToPlayers_def Let_def)

lemma assign_frame:
  "validPlayers (assignHeroesToPlayers m t) t = validPlayers m t"
  "picks (draft (assignHeroesToPlayers m t) t) = picks (draft m t)"
  "validPlayers m t \<noteq> [] \<Longrightarrow>
     manualAssignments (draft (assignHeroesToPlayers m t) t) = manualAssignments (draft m t)"
  by (simp_all add: assignHeroesToPlayers_def Let_def validPlayers_def)

lemma no_shared_player_nulls: "no_shared_player (replicate n None)"
  by (simp add: no_shared_player_def)

lemma picks_within_nth:
  "picks_within n d \<Longrightarrow> i < length (picks d) \<Longrightarrow> picks d ! i \<noteq> None \<Longrightarrow> i < n"
  unfolding picks_within_def list_all_iff by (force simp: in_set_enumerate_eq)

lemma manual_picks_assigned_nth:
  assumes "manual_picks_assigned d" and "wf_team_draft d" and "i < 5"
    and "manualAssignments d ! i" and "picks d ! i \<noteq> None"
  shows "assignments d ! i \<noteq> None"
proof -
  let ?z = "zip (manualAssignments d) (zip (picks d) (assignments d))"
  from assms(2,3) have "i < length ?z" by (simp add: wf_team_draft_def)
  then have "?z ! i \<in> set ?z" by (rule nth_mem)
  moreover have "?z ! i = (manualAssignments d ! i, picks d ! i, assignments d ! i)"
    using assms(2,3) by (simp add: wf_team_draft_def)
  ultimately show ?thesis
    using assms(1,4,5) unfolding manual_picks_assigned_def list_all_iff by auto
qed

text \<open>
  Claim C2, as the code has it. After \<open>assignHeroesToPlayers\<close> (its third pass fills the
  empty slots), provided the manual assignments kept by the first pass reference pairwise
  different players: two different slots reference the same player only if that player's
  index is the number of one of the two slots, that is, only through the sequential fallback
  of the third pass; and if every pick sits in a slot below the number of valid players (as
  it always does with five players), no two non-null entries reference the same player.
\<close>

theorem resolver_shares_by_fallback_only:
  assumes "wf_team_draft (draft m t)" and "kept_manual_distinct (draft m t)"
  shows "shared_by_fallback_only (assignments (draft (assignHeroesToPlayers m t) t)) \<and>
         (picks_within (length (validPlayers m t)) (draft m t) \<longrightarrow>
            no_shared_player (assignments (draft (assignHeroesToPlayers m t) t)))"
proof (cases "validPlayers m t = []")
  case True
  then show ?thesis
    by (simp add: assign_result no_shared_player_nulls no_shared_imp_fallback_only)
next
  case False
  let ?d = "draft m t"
  have len: "length (picks ?d) = 5"
    using assms(1) by (simp add: wf_team_draft_def)
  have man: "no_shared_player (pass1 (picks ?d) (assignments ?d) (manualAssignments ?d))"
    using assms(2) by (simp add: kept_manual_distinct_def)
  have a: "shared_by_fallback_only
      (resolve (validPlayers m t) (picks ?d) (assignments ?d) (manualAssignments ?d))"
    by (rule resolve_fallback_only[OF man])
  have b: "no_shared_player
      (resolve (validPlayers m t) (picks ?d) (assignments ?d) (manualAssignments ?d))"
    if "picks_within (length (validPlayers m t)) ?d"
  proof (rule resolve_no_shared[OF len man])
    show "\<forall>i<5. picks ?d ! i \<noteq> None \<longrightarrow> i < length (validPlayers m t)"
      using picks_within_nth[OF that] len by auto
  qed
  from a b False show ?thesis by (simp add: assign_result)
qed

theorem resolver_shares_by_fallback_only_witness:
  "wf_team_draft (draft manual_manager Blue) \<and> kept_manual_distinct (draft manual_manager Blue) \<and>
   picks_within (length (validPlayers manual_manager Blue)) (draft manual_manager Blue) \<and>
   assignments (draft (assignHeroesToPlayers manual_manager Blue) Blue) =
     [Some 1, Some 0, None, None, None] \<and>
   shared_by_fallback_only (assignments (draft (assignHeroesToPlayers manual_manager Blue) Blue)) \<and>
   no_shared_player (assignments (draft (assignHeroesToPlayers manual_manager Blue) Blue))"
proof -
  have wf: "wf_team_draft (draft manual_manager Blue)" by code_simp
  have km: "kept_manual_distinct (draft manual_manager Blue)" by code_simp
  have pw: "picks_within (length (validPlayers manual_manager Blue)) (draft manual_manager Blue)"
    by code_simp
  have res: "assignments (draft (assignHeroesToPlayers manual_manager Blue) Blue) =
     [Some 1, Some 0, None, None, None]" by code_simp
  from resolver_shares_by_fallback_only[OF wf km] pw
  have "shared_by_fallback_only (assignments (draft (assignHeroesToPlayers manual_manager Blue) Blue))"
    and "no_shared_player (assignments (draft (assignHeroesToPlayers manual_manager Blue) Blue))"
    by blast+
  with wf km pw res show ?thesis by blast
qed

text \<open>
  With two players and the two picks in the last two slots, the second pass gives the players
  to slots 3 and 4, and the third pass falls back to the slot numbers for slots 0 and 1: both
  players are referenced twice. \<open>fillEmptySlots\<close> run afterwards changes nothing.
\<close>

theorem resolver_fallback_shares_player:
  "assignments (draft (assignHeroesToPlayers late_picks_manager Blue) Blue) =
     [Some 0, Some 1, None, Some 0, Some 1] \<and>
   \<not> no_shared_player (assignments (draft (assignHeroesToPlayers late_picks_manager Blue) Blue)) \<and>
   assignments (draft (fillEmptySlots (assignHeroesToPlayers late_picks_manager Blue) Blue) Blue) =
     [Some 0, Some 1, None, Some 0, Some 1]"
  by code_simp

text \<open>
  Claim C9, as the code has it. Running \<open>assignHeroesToPlayers\<close> twice in a row leaves the
  assignments as the first run left them, provided every slot that has its manual flag set
  and holds a pick also holds an assignment before the first run.
\<close>

theorem resolver_idempotent:
  assumes "wf_team_draft (draft m t)" and "manual_picks_assigned (draft m t)"
  shows "assignments (draft (assignHeroesToPlayers (assignHeroesToPlayers m t) t) t) =
         assignments (draft (assignHeroesToPlayers m t) t)"
proof (cases "validPlayers m t = []")
  case True
  then show ?thesis by (simp add: assign_result[of "assignHeroesToPlayers m t"] assign_frame assign_result[of m])
next
  case False
  let ?d = "draft m t"
  have len: "length (assignments ?d) = 5" using assms(1) by (simp add: wf_team_draft_def)
  have set: "\<forall>i < 5. manual_at (manualAssignments ?d) i \<and> pick_at (picks ?d) i \<noteq> None \<longrightarrow>
                assignments ?d ! i \<noteq> None"
    using manual_picks_assigned_nth[OF assms(2,1)] wf_reads[OF assms(1)] by auto
  from resolve_idem[OF len set, of "validPlayers m t"] False show ?thesis
    by (simp add: assign_result[of "assignHeroesToPlayers m t"] assign_frame assign_result[of m])
qed

theorem resolver_idempotent_witness:
  "wf_team_draft (draft manual_manager Blue) \<and> manual_picks_assigned (draft manual_manager Blue) \<and>
   assignments (draft (assignHeroesToPlayers manual_manager Blue) Blue) =
     [Some 1, Some 0, None, None, None] \<and>
   assignments (draft (assignHeroesToPlayers (assignHeroesToPlayers manual_manager Blue) Blue) Blue) =
     assignments (draft (assignHeroesToPlayers manual_manager Blue) Blue)"
proof -
  have wf: "wf_team_draft (draft manual_manager Blue)" by code_simp
  have mp: "manual_picks_assigned (draft manual_manager Blue)" by code_simp
  have res: "assignments (draft (assignHeroesToPlayers manual_manager Blue) Blue) =
     [Some 1, Some 0, None, None, None]" by code_simp
  from resolver_idempotent[OF wf mp] wf mp res show ?thesis by blast
qed

text \<open>
  A slot with a pick whose manual flag is set and whose assignment is null is filled by the
  first run (here by the fallback of the third pass) and is then kept as a manual assignment
  by the second run, which changes what is left for the other slots.
\<close>

theorem resolver_not_idempotent:
  "assignments (draft (assignHeroesToPlayers unassigned_manual_manager Blue) Blue) =
     [Some 1, Some 1, Some 0, None, None] \<and>
   assignments (draft (assignHeroesToPlayers (assignHeroesToPlayers unassigned_manual_manager Blue) Blue) Blue) =
     [Some 0, Some 1, Some 0, None, None]"
  by code_simp

end
